theory Spec2Isabelle
  imports Main "HOL-Library.Sublist" "HOL-Library.AList" "HOL-Library.Multiset"
begin

section \<open>Data model\<close>

text \<open>
  The program is a Streamlit script (\<^verbatim>\<open>app.py\<close>): persistence functions over a directory
  of JSON files, and a top-level script that runs once per user interaction over the
  session state.

  Strings are \<open>string\<close>; every \<open>char\<close> stands for one code point of a Python \<open>str\<close>
  (code points above 255 are outside the model). A clock reading is a natural number; the
  ISO-8601 rendering that the program stores is an injective image of it and is not
  modelled. Opening, writing and removing a file are assumed not to fail; reading and
  decoding one may.
\<close>

datatype py_error =
    JSONDecodeError
  | UnicodeDecodeError
  | RecursionError
  | ValueError
  | KeyError
  | TypeError
  | AttributeError

text \<open>A message is the dict \<^verbatim>\<open>{"role": ..., "content": ...}\<close>.\<close>

record message =
  role :: string
  content :: string

text \<open>
  A dict that \<^verbatim>\<open>json.load\<close> returns for a chat file: each of the five keys the program uses
  may be present or absent (\<^verbatim>\<open>d["k"]\<close> raises \<^verbatim>\<open>KeyError\<close> on an absent key,
  \<^verbatim>\<open>d.get("k", v)\<close> yields \<open>v\<close>); a key that is present holds a value of the type the
  program writes under it.
\<close>

record chat_doc =
  chat_id :: "string option"
  title :: "string option"
  messages :: "message list option"
  created_at :: "nat option"
  updated_at :: "nat option"

text \<open>
  The values \<^verbatim>\<open>json.load\<close> can return, as far as the program tells them apart: \<^verbatim>\<open>None\<close>
  (JSON \<open>null\<close>), a dict, or any other value (an array, a string, a number, a boolean)
  with its truth value. \<^verbatim>\<open>load_chat\<close> returns the same \<^verbatim>\<open>None\<close> when there is no file.
\<close>

datatype py_value = PyNone | PyDict chat_doc | PyOther bool

text \<open>
  The ways reading and decoding a file fails (\<^verbatim>\<open>json.load(f)\<close> on a file opened with
  \<^verbatim>\<open>encoding='utf-8'\<close>): bytes that are not UTF-8, text that is not JSON, nesting beyond
  the decoder's depth, a number literal beyond the integer conversion limit.
\<close>

datatype decode_failure = BadUtf8 | BadJson | TooDeep | HugeNumber

fun decode_exception :: "decode_failure \<Rightarrow> py_error" where
  "decode_exception BadUtf8 = UnicodeDecodeError"
| "decode_exception BadJson = JSONDecodeError"
| "decode_exception TooDeep = RecursionError"
| "decode_exception HugeNumber = ValueError"

text \<open>
  A file of the storage directory, by what reading it gives: a failure, JSON \<open>null\<close>, a
  value that is neither \<open>null\<close> nor a dict, or a dict; \<open>mtime\<close> is \<^verbatim>\<open>stat().st_mtime\<close>.
\<close>

datatype file_body = Undecodable decode_failure | Null | NotDict bool | Doc chat_doc

record chat_file =
  body :: file_body
  mtime :: nat

text \<open>
  The directory \<^verbatim>\<open>CHAT_STORAGE_DIR\<close>, restricted to the files \<^verbatim>\<open>chat_<id>.json\<close>, each
  identified with its \<open>id\<close> (for the ids \<^verbatim>\<open>create_new_chat\<close> produces,
  \<^verbatim>\<open>stem.replace("chat_", "")\<close> recovers the id from the file name). The order of the list
  is the order in which \<^verbatim>\<open>glob\<close> enumerates the directory.
\<close>

type_synonym storage = "(string \<times> chat_file) list"

text \<open>
  The clock readings one call of \<^verbatim>\<open>save_chat\<close> consumes: the two \<^verbatim>\<open>datetime.now()\<close> of
  the dict literal, and the modification time the file system gives the written file.
\<close>

record stamp =
  now_created :: nat
  now_updated :: nat
  now_mtime :: nat

section \<open>Chat persistence functions\<close>

text \<open>
  \<^verbatim>\<open>sort(key=..., reverse=True)\<close> is stable: CPython reverses the list, sorts it ascending
  with a stable sort and reverses it again.
\<close>

definition get_all_chats :: "storage \<Rightarrow> string list" where
  "get_all_chats fs = map fst (rev (sort_key (\<lambda>p. mtime (snd p)) (rev fs)))"

definition json_load :: "chat_file \<Rightarrow> py_error + py_value" where
  "json_load f =
     (case body f of
        Undecodable x \<Rightarrow> Inl (decode_exception x)
      | Null \<Rightarrow> Inr PyNone
      | NotDict truth \<Rightarrow> Inr (PyOther truth)
      | Doc d \<Rightarrow> Inr (PyDict d))"

definition load_chat :: "storage \<Rightarrow> string \<Rightarrow> py_error + py_value" where
  "load_chat fs cid =
     (case map_of fs cid of
        None \<Rightarrow> Inr PyNone
      | Some f \<Rightarrow> json_load f)"

text \<open>The \<^verbatim>\<open>for msg in messages\<close> loop of \<^verbatim>\<open>save_chat\<close>, with its \<^verbatim>\<open>break\<close>.\<close>

fun first_user_title :: "message list \<Rightarrow> string option" where
  "first_user_title [] = None"
| "first_user_title (msg # rest) =
     (if role msg = ''user''
      then Some (take 50 (content msg) @ (if length (content msg) > 50 then ''...'' else []))
      else first_user_title rest)"

definition save_chat ::
  "stamp \<Rightarrow> string \<Rightarrow> message list \<Rightarrow> string option \<Rightarrow> storage \<Rightarrow> py_error + storage" where
  "save_chat clk cid msgs title_arg fs =
     (let title1 = (if title_arg = None \<and> msgs \<noteq> [] then first_user_title msgs else title_arg);
          title2 = (case title1 of None \<Rightarrow> ''New Chat'' | Some t \<Rightarrow> t);
          data = \<lparr>chat_id = Some cid, title = Some title2, messages = Some msgs,
                  created_at = Some (now_created clk), updated_at = Some (now_updated clk)\<rparr>
      in case map_of fs cid of
           None \<Rightarrow> Inr (AList.update cid \<lparr>body = Doc data, mtime = now_mtime clk\<rparr> fs)
         | Some f \<Rightarrow>
             (case json_load f of
                Inl e \<Rightarrow> Inl e
              | Inr (PyDict old_data) \<Rightarrow>
                  Inr (AList.update cid
                         \<lparr>body = Doc (data\<lparr>created_at :=
                                 Some (case created_at old_data of
                                         None \<Rightarrow> now_created clk
                                       | Some c \<Rightarrow> c)\<rparr>),
                          mtime = now_mtime clk\<rparr> fs)
              | Inr _ \<Rightarrow> Inl AttributeError))"

definition delete_chat :: "string \<Rightarrow> storage \<Rightarrow> storage" where
  "delete_chat cid fs = (if map_of fs cid \<noteq> None then AList.delete cid fs else fs)"

text \<open>
  \<^verbatim>\<open>create_new_chat\<close> returns \<^verbatim>\<open>datetime.now().strftime("%Y%m%d_%H%M%S_%f")\<close>; its argument
  here is that rendering of the clock reading.
\<close>

definition create_new_chat :: "string \<Rightarrow> string" where
  "create_new_chat now_str = now_str"

text \<open>\<^verbatim>\<open>chat_data.get("title", "Untitled Chat")\<close>; only a dict has \<^verbatim>\<open>get\<close>.\<close>

definition get_chat_title :: "py_value \<Rightarrow> py_error + string" where
  "get_chat_title chat_data =
     (case chat_data of
        PyDict d \<Rightarrow> Inr (case title d of None \<Rightarrow> ''Untitled Chat'' | Some t \<Rightarrow> t)
      | _ \<Rightarrow> Inl AttributeError)"

section \<open>Token cleanup of a streamed reply\<close>

text \<open>
  \<^verbatim>\<open>str.replace(old, new)\<close>: the occurrences of \<open>old\<close> are found from the left, never
  overlapping, and the result is not scanned again.
\<close>

function replace :: "string \<Rightarrow> string \<Rightarrow> string \<Rightarrow> string" where
  "replace old new [] = (if old = [] then new else [])"
| "replace old new (c # cs) =
     (if old = [] then new @ c # replace old new cs
      else if prefix old (c # cs) then new @ replace old new (drop (length old) (c # cs))
      else c # replace old new cs)"
  by pat_completeness auto
termination
  by (relation "measure (\<lambda>(old, new, s). length s)") auto

text \<open>\<^verbatim>\<open>str.isspace\<close> on the code points below 256, and \<^verbatim>\<open>str.strip()\<close>.\<close>

definition isspace :: "char \<Rightarrow> bool" where
  "isspace c = (of_char c \<in> {9, 10, 11, 12, 13, 28, 29, 30, 31, 32, 133, 160 :: nat})"

definition strip :: "string \<Rightarrow> string" where
  "strip s = rev (dropWhile isspace (rev (dropWhile isspace s)))"

definition clean_tokens :: "string \<Rightarrow> string" where
  "clean_tokens s =
     replace ''<|OUT|>'' []
       (replace ''<|im_end|>'' []
          (replace ''<|im_start|>'' []
             (replace ''<s>'' [] s)))"

text \<open>
  One iteration of \<^verbatim>\<open>for chunk in response\<close>: a chunk carries \<^verbatim>\<open>delta.content\<close>, which may
  be \<^verbatim>\<open>None\<close>. After an iteration that appends, the placeholder shows the buffer followed
  by a cursor glyph.
\<close>

definition accumulate :: "string \<Rightarrow> string option \<Rightarrow> string" where
  "accumulate response_text chunk =
     (case chunk of None \<Rightarrow> response_text | Some c \<Rightarrow> response_text @ clean_tokens c)"

definition stream_loop :: "string option list \<Rightarrow> string" where
  "stream_loop cs = foldl accumulate [] cs"

definition final_cleanup :: "string \<Rightarrow> string" where
  "final_cleanup response_text = strip (clean_tokens response_text)"

section \<open>The script: session state and handlers\<close>

text \<open>
  \<^verbatim>\<open>st.session_state\<close> after its initialisation (\<open>session_messages\<close> is the key
  \<^verbatim>\<open>messages\<close>); the theme switch, which touches neither the conversation nor the
  storage, is left out.
\<close>

record session =
  current_chat_id :: string
  session_messages :: "message list"
  chat_title :: string
  feedback :: "(nat \<times> string) list"

record world =
  store :: storage
  sess :: session

text \<open>
  The streamed response of the completion client: the chunks it yields, and whether it
  raises (at the call, or after its last chunk).
\<close>

record reply =
  chunks :: "string option list"
  raises :: bool

text \<open>
  What one run of the script reads from its environment: the rendering of the clock for
  \<^verbatim>\<open>create_new_chat\<close>, the clock readings of the save a handler performs, and those of
  the save at the end of the script.
\<close>

record run_env =
  clock_id :: string
  handler_stamp :: stamp
  autosave_stamp :: stamp

text \<open>The widget that triggered the run (at most one per run).\<close>

datatype event =
    NoEvent
  | NewChatClick
  | LoadClick string
  | DeleteClick string
  | ClearClick
  | FeedbackClick nat bool
  | PromptSubmit string reply

text \<open>
  How a run ends: at the end of the script, at \<^verbatim>\<open>st.rerun()\<close>, or at an exception that
  nothing catches. The state reached is returned in each case.
\<close>

datatype status = Finished | Rerun | Raised py_error

text \<open>
  \<^verbatim>\<open>d["key"]\<close> on the result of \<^verbatim>\<open>load_chat\<close>, the key a string: only a dict can be
  subscripted with it.
\<close>

definition subscript :: "py_value \<Rightarrow> (chat_doc \<Rightarrow> 'a option) \<Rightarrow> py_error + 'a" where
  "subscript d key =
     (case d of
        PyDict doc \<Rightarrow> (case key doc of None \<Rightarrow> Inl KeyError | Some v \<Rightarrow> Inr v)
      | _ \<Rightarrow> Inl TypeError)"

text \<open>
  \<^verbatim>\<open>if chat_data:\<close> is false for \<^verbatim>\<open>None\<close>, for the empty dict and for the other values
  Python counts as false.
\<close>

definition truthy :: "py_value \<Rightarrow> bool" where
  "truthy d =
     (case d of
        PyNone \<Rightarrow> False
      | PyOther truth \<Rightarrow> truth
      | PyDict doc \<Rightarrow>
          doc \<noteq> \<lparr>chat_id = None, title = None, messages = None,
                  created_at = None, updated_at = None\<rparr>)"

definition new_session :: "run_env \<Rightarrow> session" where
  "new_session env =
     \<lparr>current_chat_id = create_new_chat (clock_id env), session_messages = [],
      chat_title = ''New Chat'', feedback = []\<rparr>"

text \<open>\<^verbatim>\<open>if st.session_state.messages: save_chat(...)\<close>, as three places of the script have it.\<close>

definition save_if_messages :: "stamp \<Rightarrow> world \<Rightarrow> py_error + storage" where
  "save_if_messages clk w =
     (if session_messages (sess w) \<noteq> []
      then save_chat clk (current_chat_id (sess w)) (session_messages (sess w))
             (Some (chat_title (sess w))) (store w)
      else Inr (store w))"

definition new_chat_handler :: "run_env \<Rightarrow> world \<Rightarrow> status \<times> world" where
  "new_chat_handler env w =
     (case save_if_messages (handler_stamp env) w of
        Inl e \<Rightarrow> (Raised e, w)
      | Inr fs \<Rightarrow> (Rerun, \<lparr>store = fs, sess = new_session env\<rparr>))"

definition load_button_handler ::
  "run_env \<Rightarrow> string \<Rightarrow> py_value \<Rightarrow> string \<Rightarrow> world \<Rightarrow> status \<times> world" where
  "load_button_handler env cid chat_data title_shown w =
     (case save_if_messages (handler_stamp env) w of
        Inl e \<Rightarrow> (Raised e, w)
      | Inr fs \<Rightarrow>
          (let s1 = (sess w)\<lparr>current_chat_id := cid\<rparr> in
           case subscript chat_data messages of
             Inl e \<Rightarrow> (Raised e, \<lparr>store = fs, sess = s1\<rparr>)
           | Inr msgs \<Rightarrow>
               (Rerun, \<lparr>store = fs,
                        sess = s1\<lparr>session_messages := msgs, chat_title := title_shown,
                                  feedback := []\<rparr>\<rparr>)))"

definition delete_button_handler ::
  "run_env \<Rightarrow> string \<Rightarrow> string list \<Rightarrow> world \<Rightarrow> status \<times> world" where
  "delete_button_handler env cid all_chats w =
     (let fs = delete_chat cid (store w); s = sess w in
      if cid = current_chat_id s then
        (let remaining_chats = filter (\<lambda>c. c \<noteq> cid) all_chats in
         if remaining_chats \<noteq> [] then
           (case load_chat fs (hd remaining_chats) of
              Inl e \<Rightarrow> (Raised e, \<lparr>store = fs, sess = s\<rparr>)
            | Inr new_chat_data \<Rightarrow>
                (case subscript new_chat_data chat_id of
                   Inl e \<Rightarrow> (Raised e, \<lparr>store = fs, sess = s\<rparr>)
                 | Inr new_id \<Rightarrow>
                     (let s1 = s\<lparr>current_chat_id := new_id\<rparr> in
                      case subscript new_chat_data messages of
                        Inl e \<Rightarrow> (Raised e, \<lparr>store = fs, sess = s1\<rparr>)
                      | Inr msgs \<Rightarrow>
                          (let s2 = s1\<lparr>session_messages := msgs\<rparr> in
                           case subscript new_chat_data title of
                             Inl e \<Rightarrow> (Raised e, \<lparr>store = fs, sess = s2\<rparr>)
                           | Inr t \<Rightarrow>
                               (Rerun, \<lparr>store = fs,
                                        sess = s2\<lparr>chat_title := t, feedback := []\<rparr>\<rparr>)))))
         else (Rerun, \<lparr>store = fs, sess = new_session env\<rparr>))
      else (Rerun, \<lparr>store = fs, sess = s\<rparr>))"

text \<open>
  The loop over \<^verbatim>\<open>all_chats\<close> in the sidebar: each listed chat is loaded, and gets its two
  buttons when the loaded data is truthy. The load button of the current chat is disabled.
\<close>

fun chat_list_loop ::
  "run_env \<Rightarrow> event \<Rightarrow> string list \<Rightarrow> string list \<Rightarrow> world \<Rightarrow> status \<times> world" where
  "chat_list_loop env ev all_chats [] w = (Finished, w)"
| "chat_list_loop env ev all_chats (cid # rest) w =
     (case load_chat (store w) cid of
        Inl e \<Rightarrow> (Raised e, w)
      | Inr chat_data \<Rightarrow>
          if truthy chat_data then
            (case get_chat_title chat_data of
               Inl e \<Rightarrow> (Raised e, w)
             | Inr title_shown \<Rightarrow>
                 if ev = LoadClick cid \<and> cid \<noteq> current_chat_id (sess w)
                 then load_button_handler env cid chat_data title_shown w
                 else if ev = DeleteClick cid then delete_button_handler env cid all_chats w
                 else chat_list_loop env ev all_chats rest w)
          else chat_list_loop env ev all_chats rest w)"

definition clear_handler :: "run_env \<Rightarrow> world \<Rightarrow> status \<times> world" where
  "clear_handler env w =
     (let s = (sess w)\<lparr>session_messages := [], feedback := [], chat_title := ''New Chat''\<rparr> in
      case save_chat (handler_stamp env) (current_chat_id s) [] (Some ''New Chat'') (store w) of
        Inl e \<Rightarrow> (Raised e, \<lparr>store = store w, sess = s\<rparr>)
      | Inr fs \<Rightarrow> (Rerun, \<lparr>store = fs, sess = s\<rparr>))"

text \<open>
  The chat input handler. The \<^verbatim>\<open>try\<close> block covers the request, the streaming loop, the
  append of the assistant message and the save; its \<^verbatim>\<open>except Exception\<close> only reports.
  \<open>streamed\<close> is the local \<^verbatim>\<open>response_text\<close> when the loop ends or the producer raises; in
  the second case nothing reads it any more.
\<close>

definition chat_input_handler :: "run_env \<Rightarrow> string \<Rightarrow> reply \<Rightarrow> world \<Rightarrow> world" where
  "chat_input_handler env prompt r w =
     (let s = sess w;
          msgs1 = session_messages s @ [\<lparr>role = ''user'', content = prompt\<rparr>];
          s1 = s\<lparr>session_messages := msgs1\<rparr>;
          s2 = (if length msgs1 = 1
                then s1\<lparr>chat_title := take 50 prompt @ (if length prompt > 50 then ''...'' else [])\<rparr>
                else s1)
      in let streamed = stream_loop (chunks r)
         in if raises r then \<lparr>store = store w, sess = s2\<rparr>
         else
           (let response_text = final_cleanup streamed;
                s3 = s2\<lparr>session_messages := msgs1 @ [\<lparr>role = ''assistant'', content = response_text\<rparr>]\<rparr>
            in case save_chat (handler_stamp env) (current_chat_id s3) (session_messages s3)
                      (Some (chat_title s3)) (store w) of
                 Inl e \<Rightarrow> \<lparr>store = store w, sess = s3\<rparr>
               | Inr fs \<Rightarrow> \<lparr>store = fs, sess = s3\<rparr>))"

text \<open>
  The two feedback buttons under the message of index \<open>idx\<close>, shown for assistant messages
  only; \<open>True\<close> is the thumbs-up button. The feedback is kept in the session alone.
\<close>

definition feedback_handler :: "nat \<Rightarrow> bool \<Rightarrow> world \<Rightarrow> world" where
  "feedback_handler idx up w =
     (let s = sess w in
      if idx < length (session_messages s) \<and> role (session_messages s ! idx) = ''assistant''
      then \<lparr>store = store w,
            sess = s\<lparr>feedback := AList.update idx (if up then ''up'' else ''down'') (feedback s)\<rparr>\<rparr>
      else w)"

text \<open>The last block of the script (``auto-save'').\<close>

definition auto_save :: "run_env \<Rightarrow> world \<Rightarrow> status \<times> world" where
  "auto_save env w =
     (case save_if_messages (autosave_stamp env) w of
        Inl e \<Rightarrow> (Raised e, w)
      | Inr fs \<Rightarrow> (Finished, \<lparr>store = fs, sess = sess w\<rparr>))"

text \<open>
  One run of the script from the sidebar on, for a session that is initialised. The
  summary expander changes neither the session nor the storage; a run it triggers is a
  run with \<open>NoEvent\<close>.
\<close>

definition script :: "run_env \<Rightarrow> event \<Rightarrow> world \<Rightarrow> status \<times> world" where
  "script env ev w =
     (if ev = NewChatClick then new_chat_handler env w
      else
        (let all_chats = get_all_chats (store w) in
         case chat_list_loop env ev all_chats all_chats w of
           (st, w1) \<Rightarrow>
             (case st of
                Finished \<Rightarrow>
                  if ev = ClearClick then clear_handler env w1
                  else auto_save env
                         (case ev of
                            FeedbackClick idx up \<Rightarrow> feedback_handler idx up w1
                          | PromptSubmit prompt r \<Rightarrow> chat_input_handler env prompt r w1
                          | _ \<Rightarrow> w1)
              | _ \<Rightarrow> (st, w1))))"

text \<open>
  An interaction cycle: the run the widget triggers and, when that run ends in
  \<^verbatim>\<open>st.rerun()\<close>, the run that follows it.
\<close>

definition cycle :: "run_env \<Rightarrow> run_env \<Rightarrow> event \<Rightarrow> world \<Rightarrow> status \<times> world" where
  "cycle env env' ev w =
     (case script env ev w of
        (st, w1) \<Rightarrow> (case st of Rerun \<Rightarrow> script env' NoEvent w1 | _ \<Rightarrow> (st, w1)))"

section \<open>Storage the program itself has written\<close>

text \<open>
  Every file of the directory decodes to a dict.
\<close>

definition decodable :: "storage \<Rightarrow> bool" where
  "decodable fs = list_all (\<lambda>p. case body (snd p) of Doc d \<Rightarrow> True | _ \<Rightarrow> False) fs"

text \<open>
  Every file is one that \<^verbatim>\<open>save_chat\<close> writes: file names are unique, and each file
  decodes to a dict that carries its own id, a title and a message list.
\<close>

definition written_by_app :: "storage \<Rightarrow> bool" where
  "written_by_app fs =
     (distinct (map fst fs) \<and>
      list_all (\<lambda>p. case body (snd p) of
                      Doc d \<Rightarrow> chat_id d = Some (fst p) \<and> title d \<noteq> None \<and> messages d \<noteq> None
                    | _ \<Rightarrow> False) fs)"

text \<open>
  What is stored under an id, when \<^verbatim>\<open>save_chat\<close> can read it: nothing (\<open>None\<close>), or a
  file that decodes to the dict \<open>d\<close> (\<open>Some d\<close>).
\<close>

definition stored_dict :: "storage \<Rightarrow> string \<Rightarrow> chat_doc option \<Rightarrow> bool" where
  "stored_dict fs cid old =
     (case map_of fs cid of
        None \<Rightarrow> old = None
      | Some f \<Rightarrow> (case body f of Doc d \<Rightarrow> old = Some d | _ \<Rightarrow> False))"

text \<open>The files behind the listing of \<^verbatim>\<open>get_all_chats\<close>, in its order.\<close>

definition by_recency :: "storage \<Rightarrow> storage" where
  "by_recency fs = rev (sort_key (\<lambda>p. mtime (snd p)) (rev fs))"

section \<open>Replies made of natural text and sentinel markers\<close>

text \<open>
  The four markers the cleanup removes, and a text given as a sequence of segments, each a
  piece of natural text or one whole marker. \<open>render\<close> is the text as the completion
  client sends it, \<open>natural_text\<close> the natural text alone, the pieces joined.
  \<open>marker_free\<close> says of a text that none of the four markers occurs in it.
\<close>

datatype sentinel = Tok_s | Tok_im_start | Tok_im_end | Tok_OUT

fun sentinel_text :: "sentinel \<Rightarrow> string" where
  "sentinel_text Tok_s = ''<s>''"
| "sentinel_text Tok_im_start = ''<|im_start|>''"
| "sentinel_text Tok_im_end = ''<|im_end|>''"
| "sentinel_text Tok_OUT = ''<|OUT|>''"

datatype segment = Natural string | Sentinel sentinel

fun render :: "segment list \<Rightarrow> string" where
  "render [] = []"
| "render (Natural t # segs) = t @ render segs"
| "render (Sentinel m # segs) = sentinel_text m @ render segs"

fun natural_text :: "segment list \<Rightarrow> string" where
  "natural_text [] = []"
| "natural_text (Natural t # segs) = t @ natural_text segs"
| "natural_text (Sentinel m # segs) = natural_text segs"

definition starts_marker :: "string \<Rightarrow> bool" where
  "starts_marker s =
     list_ex (\<lambda>m. prefix (sentinel_text m) s) [Tok_s, Tok_im_start, Tok_im_end, Tok_OUT]"

fun marker_free :: "string \<Rightarrow> bool" where
  "marker_free [] = True"
| "marker_free (c # s) = (\<not> starts_marker (c # s) \<and> marker_free s)"

section \<open>Saving and loading\<close>

lemma map_of_update_same2: "map_of (AList.update k v fs) k = Some v"
  by (simp add: update_conv')

lemma update_absent: "map_of fs k = None \<Longrightarrow> AList.update k v fs = fs @ [(k, v)]"
  by (induction fs) (auto split: if_splits)

lemma save_chat_Inr:
  assumes "stored_dict fs cid old"
  shows "save_chat clk cid msgs title_arg fs =
           Inr (AList.update cid
                  \<lparr>body = Doc \<lparr>chat_id = Some cid,
                         title = Some (case title_arg of
                                         Some t \<Rightarrow> t
                                       | None \<Rightarrow> (case first_user_title msgs of
                                                    Some t \<Rightarrow> t
                                                  | None \<Rightarrow> ''New Chat'')),
                         messages = Some msgs,
                         created_at = Some (case old of
                                              None \<Rightarrow> now_created clk
                                            | Some d \<Rightarrow> (case created_at d of
                                                          None \<Rightarrow> now_created clk
                                                        | Some c \<Rightarrow> c)),
                         updated_at = Some (now_updated clk)\<rparr>,
                   mtime = now_mtime clk\<rparr> fs)"
proof (cases "map_of fs cid")
  case None
  with assms have "old = None"
    by (simp add: stored_dict_def)
  with None show ?thesis
    by (cases title_arg; cases msgs) (simp_all add: save_chat_def)
next
  case (Some f)
  with assms obtain d where d: "body f = Doc d" "old = Some d"
    by (cases "body f") (auto simp: stored_dict_def)
  with Some show ?thesis
    by (cases title_arg; cases msgs; cases "created_at d")
       (simp_all add: save_chat_def json_load_def)
qed

lemma stored_dict_load:
  "stored_dict fs cid old \<Longrightarrow>
     load_chat fs cid = Inr (case old of None \<Rightarrow> PyNone | Some d \<Rightarrow> PyDict d)"
  by (auto simp: stored_dict_def load_chat_def json_load_def
      split: option.splits file_body.splits)

lemma stored_dict_update_same:
  "stored_dict (AList.update cid \<lparr>body = Doc d, mtime = t\<rparr> fs) cid (Some d)"
  by (simp add: stored_dict_def map_of_update_same2)

lemma stored_dict_update_ex:
  "\<exists>d1. stored_dict (AList.update cid \<lparr>body = Doc d, mtime = t\<rparr> fs) cid (Some d1)"
  using stored_dict_update_same by blast

lemma load_chat_update_same:
  "load_chat (AList.update cid \<lparr>body = Doc d, mtime = t\<rparr> fs) cid = Inr (PyDict d)"
  by (simp add: load_chat_def json_load_def map_of_update_same2)

lemma save_chat_Inr_ex:
  assumes "save_chat clk cid msgs title_arg fs = Inr fs'"
  shows "\<exists>old. stored_dict fs cid old"
  using assms
  by (auto simp: save_chat_def stored_dict_def json_load_def Let_def
      split: option.splits file_body.splits)


lemma save_chat_new:
  assumes "map_of fs k = None"
  shows "\<exists>f. save_chat clk k msgs t fs = Inr (fs @ [(k, f)]) \<and> mtime f = now_mtime clk"
proof -
  from assms have "stored_dict fs k None"
    by (simp add: stored_dict_def)
  from save_chat_Inr [OF this, of clk msgs t] assms show ?thesis
    by (simp add: update_absent)
qed

text \<open>
  Claim C1. Whatever the id, the message list and the optional title, when the record
  already stored at the id (if there is one) decodes, \<^verbatim>\<open>save_chat\<close> succeeds and
  \<^verbatim>\<open>load_chat\<close> right after it returns the record with that id, those messages and the
  title passed (the derived one when it is omitted); \<open>updated_at\<close> is the clock reading of
  the save, and \<open>created_at\<close> is the one of the record that was stored before, or the
  clock reading of the save when there was none (or it had no \<open>created_at\<close>).
\<close>

theorem save_then_load:
  assumes "stored_dict fs cid old"
  shows "\<exists>fs'. save_chat clk cid msgs title_arg fs = Inr fs' \<and>
           load_chat fs' cid =
             Inr (PyDict \<lparr>chat_id = Some cid,
                        title = Some (case title_arg of
                                        Some t \<Rightarrow> t
                                      | None \<Rightarrow> (case first_user_title msgs of
                                                   Some t \<Rightarrow> t
                                                 | None \<Rightarrow> ''New Chat'')),
                        messages = Some msgs,
                        created_at = Some (case old of
                                             None \<Rightarrow> now_created clk
                                           | Some d \<Rightarrow> (case created_at d of
                                                         None \<Rightarrow> now_created clk
                                                       | Some c \<Rightarrow> c)),
                        updated_at = Some (now_updated clk)\<rparr>)"
  by (simp add: save_chat_Inr [OF assms] load_chat_update_same)

theorem save_then_load_witness:
  "stored_dict
     [(''a'', \<lparr>body = Doc \<lparr>chat_id = Some ''a'', title = Some ''t'', messages = Some [],
                          created_at = Some 1, updated_at = Some 2\<rparr>, mtime = 3\<rparr>)] ''a''
     (Some \<lparr>chat_id = Some ''a'', title = Some ''t'', messages = Some [],
            created_at = Some 1, updated_at = Some 2\<rparr>) \<and>
   (\<exists>fs'. save_chat \<lparr>now_created = 5, now_updated = 6, now_mtime = 7\<rparr> ''a''
             [\<lparr>role = ''user'', content = ''hi''\<rparr>] (Some ''T'')
             [(''a'', \<lparr>body = Doc \<lparr>chat_id = Some ''a'', title = Some ''t'', messages = Some [],
                                  created_at = Some 1, updated_at = Some 2\<rparr>, mtime = 3\<rparr>)]
             = Inr fs' \<and>
           load_chat fs' ''a'' =
             Inr (PyDict \<lparr>chat_id = Some ''a'', title = Some ''T'',
                        messages = Some [\<lparr>role = ''user'', content = ''hi''\<rparr>],
                        created_at = Some 1, updated_at = Some 6\<rparr>))"
proof -
  have h: "stored_dict
     [(''a'', \<lparr>body = Doc \<lparr>chat_id = Some ''a'', title = Some ''t'', messages = Some [],
                          created_at = Some 1, updated_at = Some 2\<rparr>, mtime = 3\<rparr>)] ''a''
     (Some \<lparr>chat_id = Some ''a'', title = Some ''t'', messages = Some [],
            created_at = Some 1, updated_at = Some 2\<rparr>)"
    by (simp add: stored_dict_def)
  show ?thesis
    using h save_then_load [OF h, of "\<lparr>now_created = 5, now_updated = 6, now_mtime = 7\<rparr>"
        "[\<lparr>role = ''user'', content = ''hi''\<rparr>]" "Some ''T''"]
    by simp
qed

section \<open>Title derivation\<close>

lemma first_user_title_find:
  "first_user_title msgs =
     map_option (\<lambda>m. take (min (length (content m)) 50) (content m) @
                      (if length (content m) > 50 then ''...'' else []))
       (find (\<lambda>m. role m = ''user'') msgs)"
  by (induction msgs) (simp_all add: min_def)

text \<open>
  Claim C4. Saving with the title omitted stores, for the first message of role
  \<open>user\<close> with content of length \<open>L\<close>, the first \<open>min L 50\<close> characters of that content,
  followed by \<open>...\<close> exactly when \<open>L > 50\<close>; with no such message it stores \<open>New Chat\<close>.
\<close>

theorem auto_title:
  assumes "stored_dict fs cid old"
  shows "\<exists>fs' d. save_chat clk cid msgs None fs = Inr fs' \<and>
           load_chat fs' cid = Inr (PyDict d) \<and>
           title d =
             Some (case find (\<lambda>m. role m = ''user'') msgs of
                     None \<Rightarrow> ''New Chat''
                   | Some m \<Rightarrow>
                       take (min (length (content m)) 50) (content m) @
                       (if length (content m) > 50 then ''...'' else []))"
  by (cases "find (\<lambda>m. role m = ''user'') msgs")
     (simp_all add: save_chat_Inr [OF assms] load_chat_update_same first_user_title_find)

theorem auto_title_witness:
  "stored_dict [] ''a'' None \<and>
   (\<exists>fs' d. save_chat \<lparr>now_created = 5, now_updated = 6, now_mtime = 7\<rparr> ''a''
               [\<lparr>role = ''assistant'', content = ''x''\<rparr>,
                \<lparr>role = ''user'',
                 content = ''0123456789012345678901234567890123456789012345678901234''\<rparr>,
                \<lparr>role = ''user'', content = ''second''\<rparr>] None []
               = Inr fs' \<and>
             load_chat fs' ''a'' = Inr (PyDict d) \<and>
             title d = Some ''01234567890123456789012345678901234567890123456789...'')"
proof -
  have h: "stored_dict [] ''a'' None"
    by (simp add: stored_dict_def)
  show ?thesis
    using h auto_title [OF h, of "\<lparr>now_created = 5, now_updated = 6, now_mtime = 7\<rparr>"
        "[\<lparr>role = ''assistant'', content = ''x''\<rparr>,
          \<lparr>role = ''user'',
           content = ''0123456789012345678901234567890123456789012345678901234''\<rparr>,
          \<lparr>role = ''user'', content = ''second''\<rparr>]"]
    by simp
qed

text \<open>
  The chat input handler applies the same rule to the prompt that opens a conversation,
  before anything is saved.
\<close>

lemma first_prompt_title:
  assumes "session_messages (sess w) = []"
  shows "chat_title (sess (chat_input_handler env prompt r w)) =
           take (min (length prompt) 50) prompt @ (if length prompt > 50 then ''...'' else [])"
  using assms by (simp add: chat_input_handler_def Let_def min_def split: sum.splits)

section \<open>Deleting\<close>


section \<open>Listing by recency\<close>

lemma insort_key_greatest:
  "\<forall>y\<in>set xs. f y < f x \<Longrightarrow> insort_key f x xs = xs @ [x]"
  by (induction xs) auto

lemma sorted_map_le_last:
  "sorted (map f xs) \<Longrightarrow> x \<in> set xs \<Longrightarrow> f x \<le> f (last xs)"
  by (induction xs) auto

lemma sorted_desc_hd:
  "sorted (rev (map f xs)) \<Longrightarrow> x \<in> set xs \<Longrightarrow> f x \<le> f (hd xs)"
proof -
  assume s: "sorted (rev (map f xs))" and x: "x \<in> set xs"
  then have "xs \<noteq> []" by auto
  from s have "sorted (map f (rev xs))" by (simp add: rev_map)
  from sorted_map_le_last [OF this, of x] x have "f x \<le> f (last (rev xs))" by simp
  with \<open>xs \<noteq> []\<close> show ?thesis by (simp add: last_rev)
qed

lemma get_all_chats_by_recency: "get_all_chats fs = map fst (by_recency fs)"
  by (simp add: get_all_chats_def by_recency_def)

lemma mset_by_recency: "mset (by_recency fs) = mset fs"
  by (simp add: by_recency_def)

lemma set_by_recency: "set (by_recency fs) = set fs"
  by (simp add: by_recency_def)

lemma sorted_by_recency: "sorted (rev (map (\<lambda>p. mtime (snd p)) (by_recency fs)))"
  by (simp add: by_recency_def rev_map [symmetric])

lemma by_recency_newest:
  assumes "\<forall>p\<in>set fs. mtime (snd p) < mtime (snd x)"
  shows "by_recency (fs @ [x]) = x # by_recency fs"
  using assms by (simp add: by_recency_def insort_key_greatest)

lemma hd_by_recency:
  assumes "x \<in> set fs" and "\<forall>p\<in>set fs. p \<noteq> x \<longrightarrow> mtime (snd p) < mtime (snd x)"
  shows "hd (by_recency fs) = x"
proof (rule ccontr)
  assume ne: "hd (by_recency fs) \<noteq> x"
  from assms(1) have nonempty: "by_recency fs \<noteq> []"
    using set_by_recency [of fs] by auto
  then have "hd (by_recency fs) \<in> set fs"
    using set_by_recency [of fs] hd_in_set by blast
  with ne assms(2) have lt: "mtime (snd (hd (by_recency fs))) < mtime (snd x)"
    by blast
  from assms(1) have "x \<in> set (by_recency fs)"
    by (simp add: set_by_recency)
  from sorted_desc_hd [OF sorted_by_recency this]
  have "mtime (snd x) \<le> mtime (snd (hd (by_recency fs)))" .
  with lt show False by simp
qed

text \<open>
  Claim C5. \<^verbatim>\<open>get_all_chats\<close> lists the files of the directory, each once, by
  modification time, newest first. When three ids that are not stored yet are saved at
  increasing modification times, all later than those of the files already there, the
  listing starts with the three in the reverse order of their saves; from the empty
  directory it is exactly those three.
\<close>

theorem list_by_recency:
  "(\<exists>xs. get_all_chats fs = map fst xs \<and> mset xs = mset fs \<and>
         sorted (rev (map (\<lambda>p. mtime (snd p)) xs))) \<and>
   (list_all (\<lambda>p. mtime (snd p) < now_mtime t1) fs \<and>
    map_of fs a = None \<and> map_of fs b = None \<and> map_of fs c = None \<and>
    a \<noteq> b \<and> b \<noteq> c \<and> a \<noteq> c \<and>
    now_mtime t1 < now_mtime t2 \<and> now_mtime t2 < now_mtime t3 \<longrightarrow>
    (\<exists>fs1 fs2 fs3.
       save_chat t1 a msgs_a title_a fs = Inr fs1 \<and>
       save_chat t2 b msgs_b title_b fs1 = Inr fs2 \<and>
       save_chat t3 c msgs_c title_c fs2 = Inr fs3 \<and>
       get_all_chats fs3 = c # b # a # get_all_chats fs))"
proof (intro conjI impI)
  show "\<exists>xs. get_all_chats fs = map fst xs \<and> mset xs = mset fs \<and>
          sorted (rev (map (\<lambda>p. mtime (snd p)) xs))"
    using get_all_chats_by_recency mset_by_recency sorted_by_recency by blast
next
  assume h: "list_all (\<lambda>p. mtime (snd p) < now_mtime t1) fs \<and>
    map_of fs a = None \<and> map_of fs b = None \<and> map_of fs c = None \<and>
    a \<noteq> b \<and> b \<noteq> c \<and> a \<noteq> c \<and>
    now_mtime t1 < now_mtime t2 \<and> now_mtime t2 < now_mtime t3"
  then have old: "\<forall>p\<in>set fs. mtime (snd p) < now_mtime t1"
    by (simp add: list_all_iff)
  from h save_chat_new [of fs a t1 msgs_a title_a] obtain fa
    where fa: "save_chat t1 a msgs_a title_a fs = Inr (fs @ [(a, fa)])" "mtime fa = now_mtime t1"
    by blast
  from h have "map_of (fs @ [(a, fa)]) b = None"
    by auto
  from save_chat_new [OF this, of t2 msgs_b title_b] obtain fb
    where fb: "save_chat t2 b msgs_b title_b (fs @ [(a, fa)]) = Inr ((fs @ [(a, fa)]) @ [(b, fb)])"
      "mtime fb = now_mtime t2"
    by blast
  from h have "map_of ((fs @ [(a, fa)]) @ [(b, fb)]) c = None"
    by auto
  from save_chat_new [OF this, of t3 msgs_c title_c] obtain fc
    where fc: "save_chat t3 c msgs_c title_c ((fs @ [(a, fa)]) @ [(b, fb)]) =
                 Inr (((fs @ [(a, fa)]) @ [(b, fb)]) @ [(c, fc)])"
      "mtime fc = now_mtime t3"
    by blast
  have r1: "by_recency (fs @ [(a, fa)]) = (a, fa) # by_recency fs"
    using old fa(2) by (intro by_recency_newest) simp
  have r2: "by_recency ((fs @ [(a, fa)]) @ [(b, fb)]) = (b, fb) # by_recency (fs @ [(a, fa)])"
    using old fa(2) fb(2) h by (intro by_recency_newest) fastforce
  have r3: "by_recency (((fs @ [(a, fa)]) @ [(b, fb)]) @ [(c, fc)]) =
              (c, fc) # by_recency ((fs @ [(a, fa)]) @ [(b, fb)])"
    using old fa(2) fb(2) fc(2) h by (intro by_recency_newest) fastforce
  have "get_all_chats (((fs @ [(a, fa)]) @ [(b, fb)]) @ [(c, fc)]) = c # b # a # get_all_chats fs"
    by (simp only: get_all_chats_by_recency r1 r2 r3 list.map fst_conv)
  with fa(1) fb(1) fc(1) show "\<exists>fs1 fs2 fs3.
       save_chat t1 a msgs_a title_a fs = Inr fs1 \<and>
       save_chat t2 b msgs_b title_b fs1 = Inr fs2 \<and>
       save_chat t3 c msgs_c title_c fs2 = Inr fs3 \<and>
       get_all_chats fs3 = c # b # a # get_all_chats fs"
    by blast
qed

theorem list_by_recency_witness:
  "\<exists>fs1 fs2 fs3.
     save_chat \<lparr>now_created = 1, now_updated = 1, now_mtime = 1\<rparr> ''A'' [] None [] = Inr fs1 \<and>
     save_chat \<lparr>now_created = 2, now_updated = 2, now_mtime = 2\<rparr> ''B'' [] None fs1 = Inr fs2 \<and>
     save_chat \<lparr>now_created = 3, now_updated = 3, now_mtime = 3\<rparr> ''C'' [] None fs2 = Inr fs3 \<and>
     get_all_chats fs3 = [''C'', ''B'', ''A'']"
  using list_by_recency [of "[]" "\<lparr>now_created = 1, now_updated = 1, now_mtime = 1\<rparr>"
      "''A''" "''B''" "''C''" "\<lparr>now_created = 2, now_updated = 2, now_mtime = 2\<rparr>"
      "\<lparr>now_created = 3, now_updated = 3, now_mtime = 3\<rparr>" "[]" None "[]" None "[]" None]
  by (simp add: get_all_chats_def)

section \<open>The save at the end of the script\<close>

lemma decodable_load:
  assumes "decodable fs"
  shows "\<exists>old. stored_dict fs k old"
proof (cases "map_of fs k")
  case None
  then show ?thesis by (simp add: stored_dict_def)
next
  case (Some f)
  then have "(k, f) \<in> set fs" by (rule map_of_SomeD)
  with assms obtain d where "body f = Doc d"
    by (cases "body f") (auto simp: decodable_def list_all_iff)
  with Some show ?thesis
    by (simp add: stored_dict_def)
qed

lemma loop_passes:
  assumes "decodable (store w)"
    and "\<And>k. ev \<noteq> LoadClick k" and "\<And>k. ev \<noteq> DeleteClick k"
  shows "chat_list_loop env ev all_chats xs w = (Finished, w)"
proof (induction xs)
  case Nil
  show ?case by simp
next
  case (Cons k xs)
  from decodable_load [OF assms(1)] obtain old where "stored_dict (store w) k old"
    by blast
  from stored_dict_load [OF this] Cons assms(2,3) show ?case
    by (cases old) (simp_all add: truthy_def get_chat_title_def)
qed


lemma set_update_cases:
  "p \<in> set (AList.update k v xs) \<Longrightarrow> p = (k, v) \<or> p \<in> set xs"
  by (induction xs) (auto split: if_splits)

lemma set_update_distinct:
  "distinct (map fst xs) \<Longrightarrow> p \<in> set (AList.update k v xs) \<Longrightarrow>
     p = (k, v) \<or> (p \<in> set xs \<and> fst p \<noteq> k)"
  by (induction xs) (auto split: if_splits)

lemma decodable_update:
  "decodable fs \<Longrightarrow> decodable (AList.update k \<lparr>body = Doc d, mtime = t\<rparr> fs)"
  using set_update_cases [of _ k "\<lparr>body = Doc d, mtime = t\<rparr>" fs]
  by (fastforce simp: decodable_def list_all_iff)

lemma decodable_save:
  assumes "decodable fs" and "save_chat clk cid msgs title_arg fs = Inr fs'"
  shows "decodable fs'"
proof -
  from save_chat_Inr_ex [OF assms(2)] obtain old where "stored_dict fs cid old" ..
  from save_chat_Inr [OF this, of clk msgs title_arg] assms show ?thesis
    by (auto intro: decodable_update)
qed

lemma script_no_event:
  assumes "decodable (store w)"
  shows "script env NoEvent w = auto_save env w"
  using loop_passes [OF assms, of NoEvent env]
  by (simp add: script_def)






















section \<open>A chat turn\<close>

lemma save_then_load_aux:
  assumes "stored_dict fs cid old"
  shows "\<exists>fs' d. save_chat clk cid msgs title_arg fs = Inr fs' \<and>
           load_chat fs' cid = Inr (PyDict d) \<and> messages d = Some msgs"
  by (simp add: save_chat_Inr [OF assms] load_chat_update_same)

lemma script_prompt:
  assumes "decodable (store w)"
  shows "script env (PromptSubmit prompt r) w = auto_save env (chat_input_handler env prompt r w)"
  using loop_passes [OF assms, of "PromptSubmit prompt r" env]
  by (simp add: script_def)

lemma handler_raises:
  assumes "raises r"
  shows "chat_input_handler env prompt r w =
           \<lparr>store = store w,
            sess = (sess w)\<lparr>session_messages :=
                               session_messages (sess w) @ [\<lparr>role = ''user'', content = prompt\<rparr>],
                            chat_title :=
                               (if session_messages (sess w) = []
                                then take 50 prompt @ (if length prompt > 50 then ''...'' else [])
                                else chat_title (sess w))\<rparr>\<rparr>"
  using assms by (simp add: chat_input_handler_def Let_def)

lemma handler_succeeds:
  assumes "\<not> raises r" and "stored_dict (store w) (current_chat_id (sess w)) old"
  shows "\<exists>fs1 d1. store (chat_input_handler env prompt r w) = fs1 \<and>
           stored_dict fs1 (current_chat_id (sess w)) (Some d1) \<and>
           current_chat_id (sess (chat_input_handler env prompt r w)) = current_chat_id (sess w) \<and>
           session_messages (sess (chat_input_handler env prompt r w)) =
             session_messages (sess w) @
               [\<lparr>role = ''user'', content = prompt\<rparr>,
                \<lparr>role = ''assistant'', content = final_cleanup (stream_loop (chunks r))\<rparr>]"
  using assms(1)
  by (simp add: chat_input_handler_def Let_def save_chat_Inr [OF assms(2)]
      stored_dict_update_ex)

text \<open>
  Claim C2. In a turn whose reply producer raises, whatever fragments it had yielded, the
  chat input handler writes nothing; the run then ends with the save at the end of the
  script, and the stored record of the active conversation holds the working list as it
  was before the turn followed by the user's message: its assistant messages are those the
  working list had before the turn. When the producer does not raise, the one assistant
  message, built from all the fragments, is appended after the loop and stored.
\<close>

theorem failed_stream_commits_nothing:
  assumes "decodable (store w)"
  shows "(raises r \<longrightarrow>
           store (chat_input_handler env prompt r w) = store w \<and>
           (\<exists>fs' d msgs.
              script env (PromptSubmit prompt r) w =
                (Finished, \<lparr>store = fs', sess = sess (chat_input_handler env prompt r w)\<rparr>) \<and>
              load_chat fs' (current_chat_id (sess w)) = Inr (PyDict d) \<and>
              messages d = Some msgs \<and>
              msgs = session_messages (sess w) @ [\<lparr>role = ''user'', content = prompt\<rparr>] \<and>
              filter (\<lambda>m. role m = ''assistant'') msgs =
                filter (\<lambda>m. role m = ''assistant'') (session_messages (sess w)))) \<and>
         (\<not> raises r \<longrightarrow>
           (\<exists>fs' d.
              script env (PromptSubmit prompt r) w =
                (Finished, \<lparr>store = fs', sess = sess (chat_input_handler env prompt r w)\<rparr>) \<and>
              load_chat fs' (current_chat_id (sess w)) = Inr (PyDict d) \<and>
              messages d =
                Some (session_messages (sess w) @
                        [\<lparr>role = ''user'', content = prompt\<rparr>,
                         \<lparr>role = ''assistant'',
                          content = final_cleanup (stream_loop (chunks r))\<rparr>])))"
proof (intro conjI impI)
  assume r: "raises r"
  show "store (chat_input_handler env prompt r w) = store w"
    by (simp add: handler_raises [OF r])
next
  assume r: "raises r"
  let ?w1 = "chat_input_handler env prompt r w"
  let ?cid = "current_chat_id (sess w)"
  let ?msgs = "session_messages (sess w) @ [\<lparr>role = ''user'', content = prompt\<rparr>]"
  have s1: "store ?w1 = store w" "current_chat_id (sess ?w1) = ?cid"
    "session_messages (sess ?w1) = ?msgs"
    by (simp_all add: handler_raises [OF r])
  from assms decodable_load obtain old where old: "stored_dict (store w) ?cid old"
    by blast
  from save_then_load_aux [OF old, of "autosave_stamp env" ?msgs "Some (chat_title (sess ?w1))"]
  obtain fs' d where sv: "save_chat (autosave_stamp env) ?cid ?msgs
        (Some (chat_title (sess ?w1))) (store w) = Inr fs'"
    and ld: "load_chat fs' ?cid = Inr (PyDict d)" and md: "messages d = Some ?msgs"
    by blast
  from sv s1 have "auto_save env ?w1 = (Finished, \<lparr>store = fs', sess = sess ?w1\<rparr>)"
    by (simp add: auto_save_def save_if_messages_def)
  with ld md show "\<exists>fs' d msgs.
            script env (PromptSubmit prompt r) w = (Finished, \<lparr>store = fs', sess = sess ?w1\<rparr>) \<and>
            load_chat fs' ?cid = Inr (PyDict d) \<and>
            messages d = Some msgs \<and>
            msgs = ?msgs \<and>
            filter (\<lambda>m. role m = ''assistant'') msgs =
              filter (\<lambda>m. role m = ''assistant'') (session_messages (sess w))"
    by (simp add: script_prompt [OF assms])
next
  assume r: "\<not> raises r"
  let ?w1 = "chat_input_handler env prompt r w"
  let ?cid = "current_chat_id (sess w)"
  let ?msgs = "session_messages (sess w) @
                 [\<lparr>role = ''user'', content = prompt\<rparr>,
                  \<lparr>role = ''assistant'', content = final_cleanup (stream_loop (chunks r))\<rparr>]"
  from assms decodable_load obtain old where old: "stored_dict (store w) ?cid old"
    by blast
  from handler_succeeds [OF r old, of env prompt] obtain d1
    where l1: "stored_dict (store ?w1) ?cid (Some d1)"
      and c1: "current_chat_id (sess ?w1) = ?cid"
      and m1: "session_messages (sess ?w1) = ?msgs"
    by blast
  from save_then_load_aux [OF l1, of "autosave_stamp env" ?msgs "Some (chat_title (sess ?w1))"]
  obtain fs' d where sv: "save_chat (autosave_stamp env) ?cid ?msgs
        (Some (chat_title (sess ?w1))) (store ?w1) = Inr fs'"
    and ld: "load_chat fs' ?cid = Inr (PyDict d)" and md: "messages d = Some ?msgs"
    by blast
  from sv c1 m1 have "auto_save env ?w1 = (Finished, \<lparr>store = fs', sess = sess ?w1\<rparr>)"
    by (simp add: auto_save_def save_if_messages_def)
  with ld md show "\<exists>fs' d.
            script env (PromptSubmit prompt r) w = (Finished, \<lparr>store = fs', sess = sess ?w1\<rparr>) \<and>
            load_chat fs' ?cid = Inr (PyDict d) \<and> messages d = Some ?msgs"
    by (simp add: script_prompt [OF assms])
qed

theorem failed_stream_commits_nothing_witness:
  "\<exists>fs' d msgs.
     script
       \<lparr>clock_id = ''n'',
         handler_stamp = \<lparr>now_created = 3, now_updated = 3, now_mtime = 3\<rparr>,
         autosave_stamp = \<lparr>now_created = 4, now_updated = 4, now_mtime = 4\<rparr>\<rparr>
       (PromptSubmit ''q'' \<lparr>chunks = [Some ''par'', Some ''ti'', Some ''al''], raises = True\<rparr>)
       \<lparr>store =
           [(''a'', \<lparr>body = Doc \<lparr>chat_id = Some ''a'', title = Some ''hi'',
                                 messages = Some [\<lparr>role = ''user'', content = ''hi''\<rparr>,
                                                  \<lparr>role = ''assistant'', content = ''yo''\<rparr>],
                                 created_at = Some 1, updated_at = Some 1\<rparr>, mtime = 1\<rparr>)],
         sess = \<lparr>current_chat_id = ''a'',
                 session_messages = [\<lparr>role = ''user'', content = ''hi''\<rparr>,
                                     \<lparr>role = ''assistant'', content = ''yo''\<rparr>],
                 chat_title = ''hi'', feedback = []\<rparr>\<rparr>
     = (Finished,
        \<lparr>store = fs',
         sess = \<lparr>current_chat_id = ''a'',
                 session_messages = [\<lparr>role = ''user'', content = ''hi''\<rparr>,
                                     \<lparr>role = ''assistant'', content = ''yo''\<rparr>,
                                     \<lparr>role = ''user'', content = ''q''\<rparr>],
                 chat_title = ''hi'', feedback = []\<rparr>\<rparr>) \<and>
     load_chat fs' ''a'' = Inr (PyDict d) \<and>
     messages d = Some msgs \<and>
     msgs = [\<lparr>role = ''user'', content = ''hi''\<rparr>,
             \<lparr>role = ''assistant'', content = ''yo''\<rparr>,
             \<lparr>role = ''user'', content = ''q''\<rparr>] \<and>
     filter (\<lambda>m. role m = ''assistant'') msgs = [\<lparr>role = ''assistant'', content = ''yo''\<rparr>]"
  using failed_stream_commits_nothing [where
      env = "\<lparr>clock_id = ''n'',
         handler_stamp = \<lparr>now_created = 3, now_updated = 3, now_mtime = 3\<rparr>,
         autosave_stamp = \<lparr>now_created = 4, now_updated = 4, now_mtime = 4\<rparr>\<rparr>"
      and prompt = "''q''" and r = "\<lparr>chunks = [Some ''par'', Some ''ti'', Some ''al''], raises = True\<rparr>"
      and w = "\<lparr>store =
           [(''a'', \<lparr>body = Doc \<lparr>chat_id = Some ''a'', title = Some ''hi'',
                                 messages = Some [\<lparr>role = ''user'', content = ''hi''\<rparr>,
                                                  \<lparr>role = ''assistant'', content = ''yo''\<rparr>],
                                 created_at = Some 1, updated_at = Some 1\<rparr>, mtime = 1\<rparr>)],
         sess = \<lparr>current_chat_id = ''a'',
                 session_messages = [\<lparr>role = ''user'', content = ''hi''\<rparr>,
                                     \<lparr>role = ''assistant'', content = ''yo''\<rparr>],
                 chat_title = ''hi'', feedback = []\<rparr>\<rparr>"]
  by (simp add: decodable_def chat_input_handler_def Let_def)

section \<open>Clearing the current chat\<close>

lemma script_clear:
  assumes "decodable (store w)"
  shows "script env ClearClick w = clear_handler env w"
  using loop_passes [OF assms, of ClearClick env]
  by (simp add: script_def)

text \<open>
  Claim C7. Pressing the clear button empties the working list, resets the title and
  the feedback, and saves at once, with no test on the list: the stored record of the
  active conversation has the empty message list and the title \<open>New Chat\<close>, and
  \<^verbatim>\<open>load_chat\<close> returns it. The run that follows the \<^verbatim>\<open>st.rerun()\<close> leaves that record as it
  is (the save at the end of the script skips an empty list).
\<close>

theorem clear_persists_empty:
  assumes "decodable (store w)"
  shows "\<exists>fs' c.
           script env ClearClick w =
             (Rerun, \<lparr>store = fs',
                      sess = (sess w)\<lparr>session_messages := [], feedback := [],
                                      chat_title := ''New Chat''\<rparr>\<rparr>) \<and>
           load_chat fs' (current_chat_id (sess w)) =
             Inr (PyDict \<lparr>chat_id = Some (current_chat_id (sess w)), title = Some ''New Chat'',
                        messages = Some [], created_at = Some c,
                        updated_at = Some (now_updated (handler_stamp env))\<rparr>) \<and>
           cycle env env' ClearClick w =
             (Finished, \<lparr>store = fs',
                         sess = (sess w)\<lparr>session_messages := [], feedback := [],
                                         chat_title := ''New Chat''\<rparr>\<rparr>)"
proof -
  let ?cid = "current_chat_id (sess w)"
  let ?s = "(sess w)\<lparr>session_messages := [], feedback := [], chat_title := ''New Chat''\<rparr>"
  from assms decodable_load obtain old where old: "stored_dict (store w) ?cid old"
    by blast
  define c where "c = (case old of None \<Rightarrow> now_created (handler_stamp env)
       | Some d \<Rightarrow> (case created_at d of None \<Rightarrow> now_created (handler_stamp env) | Some c \<Rightarrow> c))"
  define d where "d = \<lparr>chat_id = Some ?cid, title = Some ''New Chat'', messages = Some [],
       created_at = Some c, updated_at = Some (now_updated (handler_stamp env))\<rparr>"
  define fs' where
    "fs' = AList.update ?cid \<lparr>body = Doc d, mtime = now_mtime (handler_stamp env)\<rparr> (store w)"
  have sv: "save_chat (handler_stamp env) ?cid [] (Some ''New Chat'') (store w) = Inr fs'"
    by (simp add: save_chat_Inr [OF old] fs'_def d_def c_def)
  then have run: "script env ClearClick w = (Rerun, \<lparr>store = fs', sess = ?s\<rparr>)"
    by (simp add: script_clear [OF assms] clear_handler_def Let_def)
  have ld: "load_chat fs' ?cid = Inr (PyDict d)"
    by (simp add: fs'_def load_chat_update_same)
  have "decodable fs'"
    using assms by (simp add: fs'_def decodable_update)
  then have "script env' NoEvent \<lparr>store = fs', sess = ?s\<rparr> = (Finished, \<lparr>store = fs', sess = ?s\<rparr>)"
    by (simp add: script_no_event auto_save_def save_if_messages_def)
  with run have "cycle env env' ClearClick w = (Finished, \<lparr>store = fs', sess = ?s\<rparr>)"
    by (simp add: cycle_def)
  with run ld show ?thesis
    unfolding d_def by blast
qed

theorem clear_persists_empty_witness:
  "\<exists>fs' c.
     script
       \<lparr>clock_id = ''n'',
         handler_stamp = \<lparr>now_created = 3, now_updated = 3, now_mtime = 3\<rparr>,
         autosave_stamp = \<lparr>now_created = 4, now_updated = 4, now_mtime = 4\<rparr>\<rparr>
       ClearClick
       \<lparr>store =
           [(''a'', \<lparr>body = Doc \<lparr>chat_id = Some ''a'', title = Some ''hi'',
                                 messages = Some [\<lparr>role = ''user'', content = ''hi''\<rparr>],
                                 created_at = Some 1, updated_at = Some 1\<rparr>, mtime = 1\<rparr>)],
         sess = \<lparr>current_chat_id = ''a'',
                 session_messages = [\<lparr>role = ''user'', content = ''hi''\<rparr>],
                 chat_title = ''hi'', feedback = [(0, ''up'')]\<rparr>\<rparr>
     = (Rerun,
        \<lparr>store = fs',
         sess = \<lparr>current_chat_id = ''a'', session_messages = [],
                 chat_title = ''New Chat'', feedback = []\<rparr>\<rparr>) \<and>
     load_chat fs' ''a'' =
       Inr (PyDict \<lparr>chat_id = Some ''a'', title = Some ''New Chat'', messages = Some [],
                  created_at = Some c, updated_at = Some 3\<rparr>) \<and>
     cycle
       \<lparr>clock_id = ''n'',
         handler_stamp = \<lparr>now_created = 3, now_updated = 3, now_mtime = 3\<rparr>,
         autosave_stamp = \<lparr>now_created = 4, now_updated = 4, now_mtime = 4\<rparr>\<rparr>
       \<lparr>clock_id = ''m'',
         handler_stamp = \<lparr>now_created = 5, now_updated = 5, now_mtime = 5\<rparr>,
         autosave_stamp = \<lparr>now_created = 6, now_updated = 6, now_mtime = 6\<rparr>\<rparr>
       ClearClick
       \<lparr>store =
           [(''a'', \<lparr>body = Doc \<lparr>chat_id = Some ''a'', title = Some ''hi'',
                                 messages = Some [\<lparr>role = ''user'', content = ''hi''\<rparr>],
                                 created_at = Some 1, updated_at = Some 1\<rparr>, mtime = 1\<rparr>)],
         sess = \<lparr>current_chat_id = ''a'',
                 session_messages = [\<lparr>role = ''user'', content = ''hi''\<rparr>],
                 chat_title = ''hi'', feedback = [(0, ''up'')]\<rparr>\<rparr>
     = (Finished,
        \<lparr>store = fs',
         sess = \<lparr>current_chat_id = ''a'', session_messages = [],
                 chat_title = ''New Chat'', feedback = []\<rparr>\<rparr>)"
  using clear_persists_empty [where
      env = "\<lparr>clock_id = ''n'',
         handler_stamp = \<lparr>now_created = 3, now_updated = 3, now_mtime = 3\<rparr>,
         autosave_stamp = \<lparr>now_created = 4, now_updated = 4, now_mtime = 4\<rparr>\<rparr>"
      and env' = "\<lparr>clock_id = ''m'',
         handler_stamp = \<lparr>now_created = 5, now_updated = 5, now_mtime = 5\<rparr>,
         autosave_stamp = \<lparr>now_created = 6, now_updated = 6, now_mtime = 6\<rparr>\<rparr>"
      and w = "\<lparr>store =
           [(''a'', \<lparr>body = Doc \<lparr>chat_id = Some ''a'', title = Some ''hi'',
                                 messages = Some [\<lparr>role = ''user'', content = ''hi''\<rparr>],
                                 created_at = Some 1, updated_at = Some 1\<rparr>, mtime = 1\<rparr>)],
         sess = \<lparr>current_chat_id = ''a'',
                 session_messages = [\<lparr>role = ''user'', content = ''hi''\<rparr>],
                 chat_title = ''hi'', feedback = [(0, ''up'')]\<rparr>\<rparr>"]
  by (simp add: decodable_def)

section \<open>Deleting the active conversation\<close>

lemma written_load:
  assumes "written_by_app fs" and "(k, f) \<in> set fs"
  shows "\<exists>d msgs t. body f = Doc d \<and> load_chat fs k = Inr (PyDict d) \<and> chat_id d = Some k \<and>
           messages d = Some msgs \<and> title d = Some t"
proof -
  from assms have m: "map_of fs k = Some f"
    by (simp add: written_by_app_def)
  from assms obtain d where d: "body f = Doc d" "chat_id d = Some k" "title d \<noteq> None"
    "messages d \<noteq> None"
    by (cases "body f") (auto simp: written_by_app_def list_all_iff)
  with m show ?thesis
    by (auto simp: load_chat_def json_load_def)
qed

lemma truthy_with_id: "chat_id d = Some k \<Longrightarrow> truthy (PyDict d)"
  by (auto simp: truthy_def)

lemma loop_delete:
  assumes "written_by_app (store w)" and "cid \<in> set xs" and "set xs \<subseteq> fst ` set (store w)"
  shows "chat_list_loop env (DeleteClick cid) all_chats xs w =
           delete_button_handler env cid all_chats w"
  using assms(2,3)
proof (induction xs)
  case Nil
  then show ?case by simp
next
  case (Cons k xs)
  from Cons.prems(2) obtain f where "(k, f) \<in> set (store w)"
    by auto
  from written_load [OF assms(1) this] obtain d
    where d: "load_chat (store w) k = Inr (PyDict d)" "chat_id d = Some k"
    by blast
  show ?case
  proof (cases "k = cid")
    case True
    with d show ?thesis
      by (simp add: truthy_with_id get_chat_title_def)
  next
    case False
    with Cons d show ?thesis
      by (simp add: truthy_with_id get_chat_title_def)
  qed
qed

lemma set_get_all_chats: "set (get_all_chats fs) = fst ` set fs"
  by (simp add: get_all_chats_by_recency set_by_recency)

lemma script_delete:
  assumes "written_by_app (store w)" and "map_of (store w) cid \<noteq> None"
  shows "script env (DeleteClick cid) w =
           delete_button_handler env cid (get_all_chats (store w)) w"
proof -
  from assms(2) have "cid \<in> set (get_all_chats (store w))"
    by (auto simp: set_get_all_chats dest: map_of_SomeD intro: rev_image_eqI)
  from loop_delete [OF assms(1) this, of env "get_all_chats (store w)"]
  have l: "chat_list_loop env (DeleteClick cid) (get_all_chats (store w))
             (get_all_chats (store w)) w
           = delete_button_handler env cid (get_all_chats (store w)) w"
    by (simp add: set_get_all_chats)
  have "fst (delete_button_handler env cid (get_all_chats (store w)) w) \<noteq> Finished"
    by (auto simp: delete_button_handler_def Let_def split: sum.splits)
  with l show ?thesis
    by (cases "delete_button_handler env cid (get_all_chats (store w)) w";
        cases "fst (delete_button_handler env cid (get_all_chats (store w)) w)")
       (simp_all add: script_def)
qed

lemma remaining_recency:
  "filter (\<lambda>c. c \<noteq> cid) (get_all_chats fs) =
     map fst (filter (\<lambda>p. fst p \<noteq> cid) (by_recency fs))"
  by (simp add: get_all_chats_by_recency filter_map comp_def)

lemma sorted_remaining:
  "sorted (rev (map (\<lambda>p. mtime (snd p)) (filter P (by_recency fs))))"
proof -
  have "sorted (map (\<lambda>p. mtime (snd p)) (rev (by_recency fs)))"
    using sorted_by_recency [of fs] by (simp add: rev_map)
  then have "sorted (map (\<lambda>p. mtime (snd p)) (filter P (rev (by_recency fs))))"
    by (rule sorted_filter)
  then show ?thesis
    by (simp add: rev_map rev_filter)
qed

lemma set_delete: "set (AList.delete k fs) = {p \<in> set fs. fst p \<noteq> k}"
  by (induction fs) auto

lemma load_chat_delete_other:
  "k \<noteq> cid \<Longrightarrow> load_chat (AList.delete cid fs) k = load_chat fs k"
  by (simp add: load_chat_def delete_conv')

lemma session_all_fields:
  "s\<lparr>current_chat_id := k, session_messages := msgs, chat_title := t, feedback := []\<rparr> =
     \<lparr>current_chat_id = k, session_messages = msgs, chat_title = t, feedback = []\<rparr>"
  by (cases s) simp

text \<open>
  Claim C3. The storage holds only files the program wrote, one of them the active
  conversation's. Pressing its delete button removes that file and ends the run in
  \<^verbatim>\<open>st.rerun()\<close> with an active conversation in either case: when other files remain, the
  session holds the id, messages and title of a remaining file whose modification time
  no remaining file exceeds (the first of the listing taken before the deletion, without
  the deleted id); when none remains, it holds a new id from the clock, no messages and
  the title \<open>New Chat\<close>. The feedback is reset in both cases.
\<close>

theorem delete_active:
  assumes "written_by_app (store w)" and "map_of (store w) (current_chat_id (sess w)) \<noteq> None"
  shows "\<exists>w'. script env (DeleteClick (current_chat_id (sess w))) w = (Rerun, w') \<and>
           store w' = delete_chat (current_chat_id (sess w)) (store w) \<and>
           load_chat (store w') (current_chat_id (sess w)) = Inr PyNone \<and>
           (store w' = [] \<longrightarrow>
              sess w' = \<lparr>current_chat_id = create_new_chat (clock_id env),
                         session_messages = [], chat_title = ''New Chat'', feedback = []\<rparr>) \<and>
           (store w' \<noteq> [] \<longrightarrow>
              (\<exists>k f d msgs t.
                 map_of (store w') k = Some f \<and> body f = Doc d \<and>
                 messages d = Some msgs \<and> title d = Some t \<and>
                 (\<forall>p\<in>set (store w'). mtime (snd p) \<le> mtime f) \<and>
                 sess w' = \<lparr>current_chat_id = k, session_messages = msgs,
                            chat_title = t, feedback = []\<rparr>))"
proof -
  let ?cid = "current_chat_id (sess w)"
  let ?fs = "store w"
  define fs' where "fs' = AList.delete ?cid ?fs"
  define R where "R = filter (\<lambda>p. fst p \<noteq> ?cid) (by_recency ?fs)"
  from assms(2) have del: "delete_chat ?cid ?fs = fs'"
    by (simp add: delete_chat_def fs'_def)
  have gone: "load_chat fs' ?cid = Inr PyNone"
    by (simp add: fs'_def load_chat_def delete_conv')
  have setR: "set R = set fs'"
    by (auto simp: R_def fs'_def set_by_recency set_delete)
  have rem: "filter (\<lambda>c. c \<noteq> ?cid) (get_all_chats ?fs) = map fst R"
    by (simp add: R_def remaining_recency)
  have run: "script env (DeleteClick ?cid) w =
               delete_button_handler env ?cid (get_all_chats ?fs) w"
    by (rule script_delete [OF assms])
  show ?thesis
  proof (cases "R = []")
    case True
    with setR have "fs' = []" by simp
    moreover from True have "delete_button_handler env ?cid (get_all_chats ?fs) w =
        (Rerun, \<lparr>store = fs', sess = new_session env\<rparr>)"
      by (simp add: delete_button_handler_def Let_def rem del)
    ultimately show ?thesis
      using run del gone by (simp add: new_session_def)
  next
    case False
    then obtain k f where hd: "hd R = (k, f)" and inR: "(k, f) \<in> set R"
      by (cases R) auto
    from inR have kf: "(k, f) \<in> set ?fs" and ne: "k \<noteq> ?cid"
      by (auto simp: R_def set_by_recency)
    from written_load [OF assms(1) kf] obtain d msgs t
      where d: "body f = Doc d" "load_chat ?fs k = Inr (PyDict d)" "chat_id d = Some k"
        "messages d = Some msgs" "title d = Some t"
      by blast
    from assms(1) kf ne have m': "map_of fs' k = Some f"
      by (simp add: fs'_def delete_conv' written_by_app_def)
    from inR setR have nonempty: "fs' \<noteq> []"
      by auto
    have newest: "\<forall>p\<in>set fs'. mtime (snd p) \<le> mtime f"
    proof
      fix p assume "p \<in> set fs'"
      with setR have "p \<in> set R" by simp
      from sorted_desc_hd [OF _ this, of "\<lambda>p. mtime (snd p)"] hd
      show "mtime (snd p) \<le> mtime f"
        by (simp add: R_def sorted_remaining)
    qed
    from False hd have hdrem: "map fst R \<noteq> []" "hd (map fst R) = k"
      by (simp_all add: hd_map)
    from ne d have "load_chat fs' k = Inr (PyDict d)"
      by (simp add: fs'_def load_chat_delete_other)
    with hdrem d have "delete_button_handler env ?cid (get_all_chats ?fs) w =
        (Rerun, \<lparr>store = fs',
                 sess = \<lparr>current_chat_id = k, session_messages = msgs,
                         chat_title = t, feedback = []\<rparr>\<rparr>)"
      by (simp add: delete_button_handler_def Let_def rem del subscript_def session_all_fields)
    with run del gone nonempty m' d newest show ?thesis
      by auto
  qed
qed

lemma example_delete_among_others:
  "script
     \<lparr>clock_id = ''n'',
         handler_stamp = \<lparr>now_created = 7, now_updated = 7, now_mtime = 7\<rparr>,
         autosave_stamp = \<lparr>now_created = 8, now_updated = 8, now_mtime = 8\<rparr>\<rparr>
     (DeleteClick ''a'')
     \<lparr>store =
           [(''a'', \<lparr>body = Doc \<lparr>chat_id = Some ''a'', title = Some ''hi'',
                                 messages = Some [\<lparr>role = ''user'', content = ''hi''\<rparr>],
                                 created_at = Some 3, updated_at = Some 3\<rparr>, mtime = 3\<rparr>),
            (''b'', \<lparr>body = Doc \<lparr>chat_id = Some ''b'', title = Some ''yo'',
                                 messages = Some [\<lparr>role = ''user'', content = ''yo''\<rparr>],
                                 created_at = Some 1, updated_at = Some 1\<rparr>, mtime = 1\<rparr>),
            (''c'', \<lparr>body = Doc \<lparr>chat_id = Some ''c'', title = Some ''ok'',
                                 messages = Some [\<lparr>role = ''user'', content = ''ok''\<rparr>],
                                 created_at = Some 2, updated_at = Some 2\<rparr>, mtime = 2\<rparr>)],
         sess = \<lparr>current_chat_id = ''a'',
                 session_messages = [\<lparr>role = ''user'', content = ''hi''\<rparr>],
                 chat_title = ''hi'', feedback = [(0, ''up'')]\<rparr>\<rparr>
   = (Rerun,
      \<lparr>store =
         [(''b'', \<lparr>body = Doc \<lparr>chat_id = Some ''b'', title = Some ''yo'',
                                 messages = Some [\<lparr>role = ''user'', content = ''yo''\<rparr>],
                                 created_at = Some 1, updated_at = Some 1\<rparr>, mtime = 1\<rparr>),
          (''c'', \<lparr>body = Doc \<lparr>chat_id = Some ''c'', title = Some ''ok'',
                                 messages = Some [\<lparr>role = ''user'', content = ''ok''\<rparr>],
                                 created_at = Some 2, updated_at = Some 2\<rparr>, mtime = 2\<rparr>)],
       sess = \<lparr>current_chat_id = ''c'',
               session_messages = [\<lparr>role = ''user'', content = ''ok''\<rparr>],
               chat_title = ''ok'', feedback = []\<rparr>\<rparr>)"
  by (simp add: script_def get_all_chats_def load_chat_def json_load_def truthy_def
      get_chat_title_def delete_button_handler_def delete_chat_def subscript_def Let_def)

lemma example_delete_last:
  "script
     \<lparr>clock_id = ''20240101_120000_000001'',
       handler_stamp = \<lparr>now_created = 7, now_updated = 7, now_mtime = 7\<rparr>,
       autosave_stamp = \<lparr>now_created = 8, now_updated = 8, now_mtime = 8\<rparr>\<rparr>
     (DeleteClick ''a'')
     \<lparr>store =
         [(''a'', \<lparr>body = Doc \<lparr>chat_id = Some ''a'', title = Some ''hi'',
                               messages = Some [\<lparr>role = ''user'', content = ''hi''\<rparr>],
                               created_at = Some 3, updated_at = Some 3\<rparr>, mtime = 3\<rparr>)],
       sess = \<lparr>current_chat_id = ''a'',
               session_messages = [\<lparr>role = ''user'', content = ''hi''\<rparr>],
               chat_title = ''hi'', feedback = []\<rparr>\<rparr>
   = (Rerun,
      \<lparr>store = [],
       sess = \<lparr>current_chat_id = ''20240101_120000_000001'', session_messages = [],
               chat_title = ''New Chat'', feedback = []\<rparr>\<rparr>)"
  by (simp add: script_def get_all_chats_def load_chat_def json_load_def truthy_def
      get_chat_title_def delete_button_handler_def delete_chat_def new_session_def create_new_chat_def Let_def)

theorem delete_active_witness:
  "written_by_app
       [(''a'', \<lparr>body = Doc \<lparr>chat_id = Some ''a'', title = Some ''hi'',
                                 messages = Some [\<lparr>role = ''user'', content = ''hi''\<rparr>],
                                 created_at = Some 3, updated_at = Some 3\<rparr>, mtime = 3\<rparr>),
            (''b'', \<lparr>body = Doc \<lparr>chat_id = Some ''b'', title = Some ''yo'',
                                 messages = Some [\<lparr>role = ''user'', content = ''yo''\<rparr>],
                                 created_at = Some 1, updated_at = Some 1\<rparr>, mtime = 1\<rparr>),
            (''c'', \<lparr>body = Doc \<lparr>chat_id = Some ''c'', title = Some ''ok'',
                                 messages = Some [\<lparr>role = ''user'', content = ''ok''\<rparr>],
                                 created_at = Some 2, updated_at = Some 2\<rparr>, mtime = 2\<rparr>)] \<and>
   map_of
       [(''a'', \<lparr>body = Doc \<lparr>chat_id = Some ''a'', title = Some ''hi'',
                                 messages = Some [\<lparr>role = ''user'', content = ''hi''\<rparr>],
                                 created_at = Some 3, updated_at = Some 3\<rparr>, mtime = 3\<rparr>),
            (''b'', \<lparr>body = Doc \<lparr>chat_id = Some ''b'', title = Some ''yo'',
                                 messages = Some [\<lparr>role = ''user'', content = ''yo''\<rparr>],
                                 created_at = Some 1, updated_at = Some 1\<rparr>, mtime = 1\<rparr>),
            (''c'', \<lparr>body = Doc \<lparr>chat_id = Some ''c'', title = Some ''ok'',
                                 messages = Some [\<lparr>role = ''user'', content = ''ok''\<rparr>],
                                 created_at = Some 2, updated_at = Some 2\<rparr>, mtime = 2\<rparr>)]
       ''a'' \<noteq> None \<and>
   (\<exists>w'. script
            \<lparr>clock_id = ''n'',
         handler_stamp = \<lparr>now_created = 7, now_updated = 7, now_mtime = 7\<rparr>,
         autosave_stamp = \<lparr>now_created = 8, now_updated = 8, now_mtime = 8\<rparr>\<rparr>
            (DeleteClick ''a'')
            \<lparr>store =
           [(''a'', \<lparr>body = Doc \<lparr>chat_id = Some ''a'', title = Some ''hi'',
                                 messages = Some [\<lparr>role = ''user'', content = ''hi''\<rparr>],
                                 created_at = Some 3, updated_at = Some 3\<rparr>, mtime = 3\<rparr>),
            (''b'', \<lparr>body = Doc \<lparr>chat_id = Some ''b'', title = Some ''yo'',
                                 messages = Some [\<lparr>role = ''user'', content = ''yo''\<rparr>],
                                 created_at = Some 1, updated_at = Some 1\<rparr>, mtime = 1\<rparr>),
            (''c'', \<lparr>body = Doc \<lparr>chat_id = Some ''c'', title = Some ''ok'',
                                 messages = Some [\<lparr>role = ''user'', content = ''ok''\<rparr>],
                                 created_at = Some 2, updated_at = Some 2\<rparr>, mtime = 2\<rparr>)],
         sess = \<lparr>current_chat_id = ''a'',
                 session_messages = [\<lparr>role = ''user'', content = ''hi''\<rparr>],
                 chat_title = ''hi'', feedback = [(0, ''up'')]\<rparr>\<rparr>
          = (Rerun, w') \<and>
      store w' =
        [(''b'', \<lparr>body = Doc \<lparr>chat_id = Some ''b'', title = Some ''yo'',
                                 messages = Some [\<lparr>role = ''user'', content = ''yo''\<rparr>],
                                 created_at = Some 1, updated_at = Some 1\<rparr>, mtime = 1\<rparr>),
         (''c'', \<lparr>body = Doc \<lparr>chat_id = Some ''c'', title = Some ''ok'',
                                 messages = Some [\<lparr>role = ''user'', content = ''ok''\<rparr>],
                                 created_at = Some 2, updated_at = Some 2\<rparr>, mtime = 2\<rparr>)] \<and>
      load_chat (store w') ''a'' = Inr PyNone \<and>
      (\<exists>k f d msgs t.
         map_of (store w') k = Some f \<and> body f = Doc d \<and>
         messages d = Some msgs \<and> title d = Some t \<and>
         (\<forall>p\<in>set (store w'). mtime (snd p) \<le> mtime f) \<and>
         sess w' = \<lparr>current_chat_id = k, session_messages = msgs,
                    chat_title = t, feedback = []\<rparr>))"
proof -
  have h1: "written_by_app
       [(''a'', \<lparr>body = Doc \<lparr>chat_id = Some ''a'', title = Some ''hi'',
                                 messages = Some [\<lparr>role = ''user'', content = ''hi''\<rparr>],
                                 created_at = Some 3, updated_at = Some 3\<rparr>, mtime = 3\<rparr>),
            (''b'', \<lparr>body = Doc \<lparr>chat_id = Some ''b'', title = Some ''yo'',
                                 messages = Some [\<lparr>role = ''user'', content = ''yo''\<rparr>],
                                 created_at = Some 1, updated_at = Some 1\<rparr>, mtime = 1\<rparr>),
            (''c'', \<lparr>body = Doc \<lparr>chat_id = Some ''c'', title = Some ''ok'',
                                 messages = Some [\<lparr>role = ''user'', content = ''ok''\<rparr>],
                                 created_at = Some 2, updated_at = Some 2\<rparr>, mtime = 2\<rparr>)]"
    by (simp add: written_by_app_def)
  have h2: "map_of
       [(''a'', \<lparr>body = Doc \<lparr>chat_id = Some ''a'', title = Some ''hi'',
                                 messages = Some [\<lparr>role = ''user'', content = ''hi''\<rparr>],
                                 created_at = Some 3, updated_at = Some 3\<rparr>, mtime = 3\<rparr>),
            (''b'', \<lparr>body = Doc \<lparr>chat_id = Some ''b'', title = Some ''yo'',
                                 messages = Some [\<lparr>role = ''user'', content = ''yo''\<rparr>],
                                 created_at = Some 1, updated_at = Some 1\<rparr>, mtime = 1\<rparr>),
            (''c'', \<lparr>body = Doc \<lparr>chat_id = Some ''c'', title = Some ''ok'',
                                 messages = Some [\<lparr>role = ''user'', content = ''ok''\<rparr>],
                                 created_at = Some 2, updated_at = Some 2\<rparr>, mtime = 2\<rparr>)]
       ''a'' \<noteq> None"
    by simp
  let ?w = "\<lparr>store =
           [(''a'', \<lparr>body = Doc \<lparr>chat_id = Some ''a'', title = Some ''hi'',
                                 messages = Some [\<lparr>role = ''user'', content = ''hi''\<rparr>],
                                 created_at = Some 3, updated_at = Some 3\<rparr>, mtime = 3\<rparr>),
            (''b'', \<lparr>body = Doc \<lparr>chat_id = Some ''b'', title = Some ''yo'',
                                 messages = Some [\<lparr>role = ''user'', content = ''yo''\<rparr>],
                                 created_at = Some 1, updated_at = Some 1\<rparr>, mtime = 1\<rparr>),
            (''c'', \<lparr>body = Doc \<lparr>chat_id = Some ''c'', title = Some ''ok'',
                                 messages = Some [\<lparr>role = ''user'', content = ''ok''\<rparr>],
                                 created_at = Some 2, updated_at = Some 2\<rparr>, mtime = 2\<rparr>)],
         sess = \<lparr>current_chat_id = ''a'',
                 session_messages = [\<lparr>role = ''user'', content = ''hi''\<rparr>],
                 chat_title = ''hi'', feedback = [(0, ''up'')]\<rparr>\<rparr>"
  let ?env = "\<lparr>clock_id = ''n'',
         handler_stamp = \<lparr>now_created = 7, now_updated = 7, now_mtime = 7\<rparr>,
         autosave_stamp = \<lparr>now_created = 8, now_updated = 8, now_mtime = 8\<rparr>\<rparr>"
  have a1: "written_by_app (store ?w)"
    using h1 by simp
  have a2: "map_of (store ?w) (current_chat_id (sess ?w)) \<noteq> None"
    by simp
  from delete_active [OF a1 a2, of ?env] obtain w'
    where run: "script ?env (DeleteClick (current_chat_id (sess ?w))) ?w = (Rerun, w')"
      and st: "store w' = delete_chat (current_chat_id (sess ?w)) (store ?w)"
      and gone: "load_chat (store w') (current_chat_id (sess ?w)) = Inr PyNone"
      and others: "store w' \<noteq> [] \<longrightarrow>
              (\<exists>k f d msgs t.
                 map_of (store w') k = Some f \<and> body f = Doc d \<and>
                 messages d = Some msgs \<and> title d = Some t \<and>
                 (\<forall>p\<in>set (store w'). mtime (snd p) \<le> mtime f) \<and>
                 sess w' = \<lparr>current_chat_id = k, session_messages = msgs,
                            chat_title = t, feedback = []\<rparr>)"
    by blast
  from run have run': "script ?env (DeleteClick ''a'') ?w = (Rerun, w')"
    by simp
  from gone have gone': "load_chat (store w') ''a'' = Inr PyNone"
    by simp
  from st have st': "store w' =
        [(''b'', \<lparr>body = Doc \<lparr>chat_id = Some ''b'', title = Some ''yo'',
                                 messages = Some [\<lparr>role = ''user'', content = ''yo''\<rparr>],
                                 created_at = Some 1, updated_at = Some 1\<rparr>, mtime = 1\<rparr>),
         (''c'', \<lparr>body = Doc \<lparr>chat_id = Some ''c'', title = Some ''ok'',
                                 messages = Some [\<lparr>role = ''user'', content = ''ok''\<rparr>],
                                 created_at = Some 2, updated_at = Some 2\<rparr>, mtime = 2\<rparr>)]"
    by (simp add: delete_chat_def)
  with others have "\<exists>k f d msgs t.
                 map_of (store w') k = Some f \<and> body f = Doc d \<and>
                 messages d = Some msgs \<and> title d = Some t \<and>
                 (\<forall>p\<in>set (store w'). mtime (snd p) \<le> mtime f) \<and>
                 sess w' = \<lparr>current_chat_id = k, session_messages = msgs,
                            chat_title = t, feedback = []\<rparr>"
    by simp
  with run' st' gone' have "\<exists>w'. script
            \<lparr>clock_id = ''n'',
         handler_stamp = \<lparr>now_created = 7, now_updated = 7, now_mtime = 7\<rparr>,
         autosave_stamp = \<lparr>now_created = 8, now_updated = 8, now_mtime = 8\<rparr>\<rparr>
            (DeleteClick ''a'')
            \<lparr>store =
           [(''a'', \<lparr>body = Doc \<lparr>chat_id = Some ''a'', title = Some ''hi'',
                                 messages = Some [\<lparr>role = ''user'', content = ''hi''\<rparr>],
                                 created_at = Some 3, updated_at = Some 3\<rparr>, mtime = 3\<rparr>),
            (''b'', \<lparr>body = Doc \<lparr>chat_id = Some ''b'', title = Some ''yo'',
                                 messages = Some [\<lparr>role = ''user'', content = ''yo''\<rparr>],
                                 created_at = Some 1, updated_at = Some 1\<rparr>, mtime = 1\<rparr>),
            (''c'', \<lparr>body = Doc \<lparr>chat_id = Some ''c'', title = Some ''ok'',
                                 messages = Some [\<lparr>role = ''user'', content = ''ok''\<rparr>],
                                 created_at = Some 2, updated_at = Some 2\<rparr>, mtime = 2\<rparr>)],
         sess = \<lparr>current_chat_id = ''a'',
                 session_messages = [\<lparr>role = ''user'', content = ''hi''\<rparr>],
                 chat_title = ''hi'', feedback = [(0, ''up'')]\<rparr>\<rparr>
          = (Rerun, w') \<and>
      store w' =
        [(''b'', \<lparr>body = Doc \<lparr>chat_id = Some ''b'', title = Some ''yo'',
                                 messages = Some [\<lparr>role = ''user'', content = ''yo''\<rparr>],
                                 created_at = Some 1, updated_at = Some 1\<rparr>, mtime = 1\<rparr>),
         (''c'', \<lparr>body = Doc \<lparr>chat_id = Some ''c'', title = Some ''ok'',
                                 messages = Some [\<lparr>role = ''user'', content = ''ok''\<rparr>],
                                 created_at = Some 2, updated_at = Some 2\<rparr>, mtime = 2\<rparr>)] \<and>
      load_chat (store w') ''a'' = Inr PyNone \<and>
      (\<exists>k f d msgs t.
         map_of (store w') k = Some f \<and> body f = Doc d \<and>
         messages d = Some msgs \<and> title d = Some t \<and>
         (\<forall>p\<in>set (store w'). mtime (snd p) \<le> mtime f) \<and>
         sess w' = \<lparr>current_chat_id = k, session_messages = msgs,
                    chat_title = t, feedback = []\<rparr>)"
    by blast
  with h1 h2 show ?thesis
    by blast
qed

section \<open>Sentinel markers\<close>

lemma replace_at_marker:
  "replace (c # old) new ((c # old) @ s) = new @ replace (c # old) new s"
  by simp

lemma sentinel_text_lt: "\<exists>old. sentinel_text m = CHR ''<'' # old"
  by (cases m) simp_all

lemma replace_other_marker:
  "m \<noteq> m' \<Longrightarrow>
     replace (sentinel_text m) [] (sentinel_text m' @ s) =
       sentinel_text m' @ replace (sentinel_text m) [] s"
  by (cases m; cases m') simp_all

lemma starts_marker_iff: "starts_marker s \<longleftrightarrow> (\<exists>m. prefix (sentinel_text m) s)"
proof
  assume "starts_marker s"
  then consider "prefix (sentinel_text Tok_s) s" | "prefix (sentinel_text Tok_im_start) s"
    | "prefix (sentinel_text Tok_im_end) s" | "prefix (sentinel_text Tok_OUT) s"
    by (auto simp: starts_marker_def)
  then show "\<exists>m. prefix (sentinel_text m) s"
    by cases blast+
next
  assume "\<exists>m. prefix (sentinel_text m) s"
  then obtain m where "prefix (sentinel_text m) s" by blast
  then show "starts_marker s"
    by (cases m) (simp_all add: starts_marker_def)
qed

lemma starts_marker_append: "starts_marker u \<Longrightarrow> starts_marker (u @ b)"
  by (auto simp: starts_marker_iff intro: prefix_prefix)

lemma marker_free_append_right: "marker_free (a @ b) \<Longrightarrow> marker_free b"
  by (induction a) simp_all

lemma marker_free_append_left: "marker_free (a @ b) \<Longrightarrow> marker_free a"
proof (induction a)
  case Nil
  show ?case by simp
next
  case (Cons c a)
  from Cons.prems have "\<not> starts_marker ((c # a) @ b)" and "marker_free (a @ b)"
    by simp_all
  with Cons.IH starts_marker_append [of "c # a" b] show ?case
    by auto
qed

lemma sentinel_tail_no_lt:
  assumes "sentinel_text m = u @ v" and "u \<noteq> []"
  shows "CHR ''<'' \<notin> set v"
proof -
  from assms(2) obtain c u' where u: "u = c # u'" by (cases u) auto
  with assms(1) have "tl (sentinel_text m) = u' @ v" by simp
  then have "set v \<subseteq> set (tl (sentinel_text m))" by simp
  moreover have "CHR ''<'' \<notin> set (tl (sentinel_text m))"
    by (cases m) simp_all
  ultimately show ?thesis by blast
qed

lemma prefix_render_natural:
  "prefix p (render segs) \<Longrightarrow> CHR ''<'' \<notin> set p \<Longrightarrow> prefix p (natural_text segs)"
proof (induction segs arbitrary: p rule: render.induct)
  case 1
  then show ?case by simp
next
  case (2 t segs)
  from "2.prems"(1) have "prefix p (t @ render segs)" by simp
  then consider (inside) "prefix p t" | (beyond) v where "p = t @ v" and "prefix v (render segs)"
    by (auto simp: prefix_append)
  then show ?case
  proof cases
    case inside
    then show ?thesis by (simp add: prefix_prefix)
  next
    case beyond
    with "2.prems"(2) have "CHR ''<'' \<notin> set v" by simp
    with beyond(2) have "prefix v (natural_text segs)" by (rule "2.IH")
    with beyond(1) show ?thesis by simp
  qed
next
  case (3 m segs)
  obtain old where old: "sentinel_text m = CHR ''<'' # old"
    using sentinel_text_lt by blast
  with "3.prems" have "p = []"
    by (cases p) auto
  then show ?case by simp
qed

lemma marker_reaches_natural:
  assumes "prefix (sentinel_text m) (u @ render segs)" and "u \<noteq> []"
  shows "prefix (sentinel_text m) (u @ natural_text segs)"
proof -
  from assms(1) consider (inside) "prefix (sentinel_text m) u"
    | (beyond) v where "sentinel_text m = u @ v" and "prefix v (render segs)"
    by (auto simp: prefix_append)
  then show ?thesis
  proof cases
    case inside
    then show ?thesis by (rule prefix_prefix)
  next
    case beyond
    from sentinel_tail_no_lt [OF beyond(1) assms(2)] have "CHR ''<'' \<notin> set v" .
    with beyond(2) have "prefix v (natural_text segs)" by (rule prefix_render_natural)
    with beyond(1) show ?thesis by simp
  qed
qed

lemma replace_skip_natural:
  "marker_free (t @ natural_text segs) \<Longrightarrow>
     replace (sentinel_text m) [] (t @ render segs) =
       t @ replace (sentinel_text m) [] (render segs)"
proof (induction t)
  case Nil
  show ?case by simp
next
  case (Cons c t)
  from Cons.prems have ns: "\<not> starts_marker ((c # t) @ natural_text segs)"
    and mf: "marker_free (t @ natural_text segs)"
    by simp_all
  have "\<not> prefix (sentinel_text m) ((c # t) @ render segs)"
  proof
    assume "prefix (sentinel_text m) ((c # t) @ render segs)"
    then have "prefix (sentinel_text m) ((c # t) @ natural_text segs)"
      by (rule marker_reaches_natural) simp
    with ns show False by (auto simp: starts_marker_iff)
  qed
  moreover have "sentinel_text m \<noteq> []"
    by (cases m) simp_all
  ultimately have "replace (sentinel_text m) [] ((c # t) @ render segs) =
      c # replace (sentinel_text m) [] (t @ render segs)"
    by simp
  with Cons.IH [OF mf] show ?case by simp
qed

lemma replace_sentinel_render:
  "marker_free (natural_text segs) \<Longrightarrow>
     replace (sentinel_text m) [] (render segs) = render (filter (\<lambda>g. g \<noteq> Sentinel m) segs)"
proof (induction segs rule: render.induct)
  case 1
  show ?case by (cases m) simp_all
next
  case (2 t segs)
  from "2.prems" have "marker_free (natural_text segs)"
    by (simp add: marker_free_append_right)
  with 2 show ?case
    by (simp add: replace_skip_natural)
next
  case (3 m' segs)
  show ?case
  proof (cases "m' = m")
    case True
    obtain old where old: "sentinel_text m = CHR ''<'' # old"
      using sentinel_text_lt by blast
    have "replace (sentinel_text m) [] (sentinel_text m @ render segs) =
            replace (sentinel_text m) [] (render segs)"
      unfolding old by (simp only: replace_at_marker append_Nil)
    with 3 True show ?thesis by simp
  next
    case False
    with 3 show ?thesis
      by (simp add: replace_other_marker)
  qed
qed

lemma natural_text_filter:
  "natural_text (filter (\<lambda>g. g \<noteq> Sentinel m) segs) = natural_text segs"
  by (induction segs rule: natural_text.induct) simp_all

lemma render_no_sentinel:
  "render (filter (\<lambda>g. g \<noteq> Sentinel Tok_OUT)
     (filter (\<lambda>g. g \<noteq> Sentinel Tok_im_end)
        (filter (\<lambda>g. g \<noteq> Sentinel Tok_im_start)
           (filter (\<lambda>g. g \<noteq> Sentinel Tok_s) segs)))) = natural_text segs"
proof (induction segs rule: render.induct)
  case (3 m segs)
  then show ?case by (cases m) simp_all
qed simp_all

lemma clean_tokens_render:
  assumes "marker_free (natural_text segs)"
  shows "clean_tokens (render segs) = natural_text segs"
proof -
  have "clean_tokens (render segs) =
     replace (sentinel_text Tok_OUT) []
       (replace (sentinel_text Tok_im_end) []
          (replace (sentinel_text Tok_im_start) []
             (replace (sentinel_text Tok_s) [] (render segs))))"
    by (simp add: clean_tokens_def)
  also have "\<dots> = natural_text segs"
    using assms
    by (simp only: replace_sentinel_render natural_text_filter render_no_sentinel)
  finally show ?thesis .
qed

lemma clean_tokens_marker_free:
  assumes "marker_free t"
  shows "clean_tokens t = t"
  using clean_tokens_render [of "[Natural t]"] assms by simp

lemma marker_free_concat:
  "marker_free (concat (map natural_text segss)) \<Longrightarrow>
     list_all (\<lambda>segs. marker_free (natural_text segs)) segss"
proof (induction segss)
  case Nil
  show ?case by simp
next
  case (Cons segs segss)
  from Cons.prems have "marker_free (natural_text segs @ concat (map natural_text segss))"
    by simp
  from marker_free_append_left [OF this] marker_free_append_right [OF this] Cons.IH
  show ?case by simp
qed

lemma stream_loop_rendered:
  "list_all (\<lambda>segs. marker_free (natural_text segs)) segss \<Longrightarrow>
     foldl accumulate acc (map (\<lambda>segs. Some (render segs)) segss) =
       acc @ concat (map natural_text segss)"
  by (induction segss arbitrary: acc) (simp_all add: accumulate_def clean_tokens_render)

lemma strip_trims:
  "\<exists>a b. s = a @ strip s @ b \<and> list_all isspace a \<and> list_all isspace b \<and>
         (strip s \<noteq> [] \<longrightarrow> \<not> isspace (hd (strip s)) \<and> \<not> isspace (last (strip s)))"
proof -
  define u where "u = dropWhile isspace s"
  define a where "a = takeWhile isspace s"
  define b where "b = rev (takeWhile isspace (rev u))"
  have st: "strip s = rev (dropWhile isspace (rev u))"
    by (simp add: strip_def u_def)
  have "rev (takeWhile isspace (rev u) @ dropWhile isspace (rev u)) = rev (rev u)"
    by (simp only: takeWhile_dropWhile_id)
  then have "rev (dropWhile isspace (rev u)) @ rev (takeWhile isspace (rev u)) = u"
    by (simp only: rev_append rev_rev_ident)
  then have u: "u = strip s @ b"
    by (simp only: st b_def)
  have "s = a @ u"
    by (simp add: a_def u_def)
  with u have s: "s = a @ strip s @ b"
    by simp
  have sa: "list_all isspace a"
    by (auto simp: a_def list_all_iff dest: set_takeWhileD)
  have sb: "list_all isspace b"
    by (auto simp: b_def list_all_iff dest: set_takeWhileD)
  have ends: "\<not> isspace (hd (strip s)) \<and> \<not> isspace (last (strip s))" if ne: "strip s \<noteq> []"
  proof
    from ne u have "u \<noteq> []" and "hd u = hd (strip s)"
      by auto
    with hd_dropWhile [of isspace s] show "\<not> isspace (hd (strip s))"
      by (simp add: u_def)
    from ne st have ne': "dropWhile isspace (rev u) \<noteq> []"
      by simp
    from hd_dropWhile [OF ne'] have "\<not> isspace (hd (dropWhile isspace (rev u)))" .
    with ne' show "\<not> isspace (last (strip s))"
      by (simp add: st last_rev)
  qed
  from s sa sb ends show ?thesis by blast
qed

lemma marker_free_strip: "marker_free s \<Longrightarrow> marker_free (strip s)"
proof -
  assume mf: "marker_free s"
  from strip_trims [of s] obtain a b where "s = a @ strip s @ b" by blast
  with mf have "marker_free (a @ strip s @ b)" by simp
  then have "marker_free (strip s @ b)" by (rule marker_free_append_right)
  then show "marker_free (strip s)" by (rule marker_free_append_left)
qed

lemma sentinel_no_space: "c \<in> set (sentinel_text m) \<Longrightarrow> \<not> isspace c"
  by (cases m) (auto simp: isspace_def)

lemma starts_marker_space: "isspace c \<Longrightarrow> \<not> starts_marker (c # s)"
proof
  assume sp: "isspace c" and "starts_marker (c # s)"
  then obtain m where p: "prefix (sentinel_text m) (c # s)"
    by (auto simp: starts_marker_iff)
  obtain old where old: "sentinel_text m = CHR ''<'' # old"
    using sentinel_text_lt by blast
  with p have "c = CHR ''<''" by simp
  with sp show False by (simp add: isspace_def)
qed

lemma marker_free_space_left:
  "list_all isspace a \<Longrightarrow> marker_free s \<Longrightarrow> marker_free (a @ s)"
  by (induction a) (simp_all add: starts_marker_space)

lemma starts_marker_space_right:
  assumes "list_all isspace b" and "starts_marker (u @ b)"
  shows "starts_marker u"
proof -
  from assms(2) obtain m where p: "prefix (sentinel_text m) (u @ b)"
    by (auto simp: starts_marker_iff)
  then consider (inside) "prefix (sentinel_text m) u"
    | (beyond) v where "sentinel_text m = u @ v" and "prefix v b"
    by (auto simp: prefix_append)
  then show ?thesis
  proof cases
    case inside
    then show ?thesis by (auto simp: starts_marker_iff)
  next
    case beyond
    show ?thesis
    proof (cases v)
      case Nil
      with beyond(1) have "prefix (sentinel_text m) u" by simp
      then show ?thesis by (auto simp: starts_marker_iff)
    next
      case (Cons c v')
      with beyond(2) have "c \<in> set b" by (auto simp: prefix_def)
      with assms(1) have "isspace c" by (simp add: list_all_iff)
      moreover from Cons beyond(1) have "c \<in> set (sentinel_text m)" by simp
      ultimately show ?thesis using sentinel_no_space by blast
    qed
  qed
qed

lemma marker_free_space_right:
  "list_all isspace b \<Longrightarrow> marker_free s \<Longrightarrow> marker_free (s @ b)"
proof (induction s)
  case Nil
  from marker_free_space_left [OF Nil.prems(1), of "[]"] show ?case by simp
next
  case (Cons c s)
  from Cons.prems(2) have "\<not> starts_marker (c # s)" and "marker_free s" by simp_all
  with Cons.IH Cons.prems(1) starts_marker_space_right [of b "c # s"] show ?case
    by auto
qed

lemma marker_free_strip_iff: "marker_free (strip s) \<longleftrightarrow> marker_free s"
proof
  assume "marker_free s"
  then show "marker_free (strip s)" by (rule marker_free_strip)
next
  assume mf: "marker_free (strip s)"
  from strip_trims [of s] obtain a b
    where s: "s = a @ strip s @ b" and a: "list_all isspace a" and b: "list_all isspace b"
    by blast
  from b mf have "marker_free (strip s @ b)" by (rule marker_free_space_right)
  with a have "marker_free (a @ strip s @ b)" by (rule marker_free_space_left)
  with s show "marker_free s" by simp
qed

text \<open>
  Claim C6, amended. \<^verbatim>\<open>str.replace\<close> removes the occurrences it finds in one pass, and the
  four passes follow one another, so a reply can still hold a marker after the cleanup
  (the counterexample below). The claim holds for the replies that can meet it, those
  made of whole markers and of natural text in which, the markers taken out, no marker
  occurs: a fragment of that form reaches the buffer that is displayed as its natural
  text alone; a sequence of such fragments is committed as the natural text, stripped,
  and no marker occurs in the committed message; and whenever the buffer at the end of
  the loop is of that form (a marker split over two fragments is then whole in it), the
  committed message is its natural text, stripped, and no marker occurs in it.
  Conversely, a committed message that is the stripped natural text and holds no marker
  comes from natural text in which no marker occurs. By \<open>strip_trims\<close>, \<^verbatim>\<open>strip\<close> removes
  white space at the two ends and nothing else.
\<close>

theorem sentinels_stripped:
  "(marker_free (natural_text segs) \<longrightarrow>
      accumulate response_text (Some (render segs)) = response_text @ natural_text segs) \<and>
   (marker_free (concat (map natural_text segss)) \<longrightarrow>
      stream_loop (map (\<lambda>segs. Some (render segs)) segss) = concat (map natural_text segss) \<and>
      final_cleanup (stream_loop (map (\<lambda>segs. Some (render segs)) segss)) =
        strip (concat (map natural_text segss)) \<and>
      marker_free (final_cleanup (stream_loop (map (\<lambda>segs. Some (render segs)) segss)))) \<and>
   (marker_free (natural_text segs) \<and> stream_loop cs = render segs \<longrightarrow>
      final_cleanup (stream_loop cs) = strip (natural_text segs) \<and>
      marker_free (final_cleanup (stream_loop cs))) \<and>
   (final_cleanup (stream_loop cs) = strip (natural_text segs) \<and>
    marker_free (final_cleanup (stream_loop cs)) \<longrightarrow> marker_free (natural_text segs))"
proof (intro conjI impI)
  assume "marker_free (natural_text segs)"
  then show "accumulate response_text (Some (render segs)) = response_text @ natural_text segs"
    by (simp add: accumulate_def clean_tokens_render)
next
  assume p: "marker_free (concat (map natural_text segss))"
  then have "list_all (\<lambda>segs. marker_free (natural_text segs)) segss"
    by (rule marker_free_concat)
  then show l: "stream_loop (map (\<lambda>segs. Some (render segs)) segss) =
                  concat (map natural_text segss)"
    by (simp add: stream_loop_def stream_loop_rendered)
  from clean_tokens_marker_free [OF p]
  show f: "final_cleanup (stream_loop (map (\<lambda>segs. Some (render segs)) segss)) =
          strip (concat (map natural_text segss))"
    by (simp only: l final_cleanup_def)
  from p show "marker_free (final_cleanup (stream_loop (map (\<lambda>segs. Some (render segs)) segss)))"
    unfolding f by (rule marker_free_strip)
next
  assume a: "marker_free (natural_text segs) \<and> stream_loop cs = render segs"
  then show f: "final_cleanup (stream_loop cs) = strip (natural_text segs)"
    by (simp add: final_cleanup_def clean_tokens_render)
  from a have "marker_free (natural_text segs)" by simp
  then show "marker_free (final_cleanup (stream_loop cs))"
    unfolding f by (rule marker_free_strip)
next
  assume c: "final_cleanup (stream_loop cs) = strip (natural_text segs) \<and>
    marker_free (final_cleanup (stream_loop cs))"
  then have e: "final_cleanup (stream_loop cs) = strip (natural_text segs)" ..
  from c have "marker_free (final_cleanup (stream_loop cs))" ..
  then have "marker_free (strip (natural_text segs))" by (simp only: e)
  then show "marker_free (natural_text segs)" by (simp only: marker_free_strip_iff)
qed

text \<open>
  Nested markers: the fragment \<open><<s>s>\<close> leaves \<open><s>\<close> in the buffer that is displayed, and
  the single fragment \<open><<<s>s>s>\<close> is committed as \<open><s>\<close>, after the cleanup of the
  fragment and the final cleanup.
\<close>

theorem sentinels_stripped_counterexample:
  "accumulate [] (Some ''<<s>s>'') = ''<s>'' \<and>
   final_cleanup (stream_loop [Some ''<<<s>s>s>'']) = ''<s>''"
  by (simp add: accumulate_def stream_loop_def final_cleanup_def clean_tokens_def strip_def
      isspace_def)

theorem sentinels_stripped_witness:
  "marker_free ''if a < b: ok'' \<and>
   accumulate ''ab'' (Some ''if a < b: <s>ok'') = ''abif a < b: ok'' \<and>
   marker_free '' a <b> c  '' \<and>
   final_cleanup (stream_loop [Some '' a <'', None, Some ''b><|im_end|>'', Some ''<|OUT|> c  ''])
     = ''a <b> c'' \<and>
   marker_free '' a bc  '' \<and>
   stream_loop [Some '' a <'', None, Some ''s>b'', Some ''<|OUT|>c  ''] = '' a <s>bc  '' \<and>
   final_cleanup (stream_loop [Some '' a <'', None, Some ''s>b'', Some ''<|OUT|>c  '']) = ''a bc'' \<and>
   marker_free ''a bc''"
  using sentinels_stripped [where response_text = "''ab''"
      and segs = "[Natural ''if a < b: '', Sentinel Tok_s, Natural ''ok'']"]
    sentinels_stripped [where
      segss = "[[Natural '' a <''], [], [Natural ''b>'', Sentinel Tok_im_end],
                [Sentinel Tok_OUT, Natural '' c  '']]"]
    sentinels_stripped [where cs = "[Some '' a <'', None, Some ''s>b'', Some ''<|OUT|>c  '']"
      and segs = "[Natural '' a '', Sentinel Tok_s, Natural ''bc  '']"]
  by (simp add: accumulate_def stream_loop_def clean_tokens_def strip_def isspace_def
      starts_marker_def)

section \<open>A file that does not decode\<close>







end
